theory Spec2Isabelle
  imports Complex_Main "HOL-Library.AList" "HOL-Library.Log_Nat"
begin

section \<open>Data model of the signaling server (types.ts)\<close>

subsection \<open>JavaScript numbers\<close>

text \<open>
  A JavaScript number is an IEEE 754 binary64 value. A finite one is kept as the rational
  it denotes, with \<open>Finite 0\<close> for \<^verbatim>\<open>+0\<close>; \<^verbatim>\<open>-0\<close>, the two infinities and NaN are
  constructors of their own. The operations the code uses are \<^verbatim>\<open>+\<close>, \<^verbatim>\<open>/\<close>, \<^verbatim>\<open>===\<close>,
  truthiness and the conversion of an array length; \<^verbatim>\<open>+\<close> and \<^verbatim>\<open>/\<close> round the exact
  result to the nearest double, ties to the even significand.

  \<open>Finite q\<close> is a value of JavaScript when \<open>q\<close> is a double, that is when
  \<open>toDouble q = Finite q\<close>. The numbers of a message are: \<^verbatim>\<open>JSON.parse\<close> reads a
  numeric literal as \<open>toDouble\<close> of its value, so that the literal
  \<^verbatim>\<open>18014398509481985\<close> arrives as \<^verbatim>\<open>18014398509481984\<close> (lemma
  \<open>literal_rounding_example\<close>). The results of the operations are as well (lemma
  \<open>results_are_doubles\<close>).
\<close>

datatype number = Finite rat | NegZero | PosInfinity | NegInfinity | NaN

fun isNaN :: "number \<Rightarrow> bool" where
  "isNaN NaN = True"
| "isNaN _ = False"

fun isInfinite :: "number \<Rightarrow> bool" where
  "isInfinite PosInfinity = True"
| "isInfinite NegInfinity = True"
| "isInfinite _ = False"

fun isZero :: "number \<Rightarrow> bool" where
  "isZero (Finite q) = (q = 0)"
| "isZero NegZero = True"
| "isZero _ = False"

fun signBit :: "number \<Rightarrow> bool" where
  "signBit (Finite q) = (q < 0)"
| "signBit NegZero = True"
| "signBit NegInfinity = True"
| "signBit _ = False"

fun exact :: "number \<Rightarrow> rat" where
  "exact (Finite q) = q"
| "exact _ = 0"

definition signedZero :: "bool \<Rightarrow> number" where
  "signedZero neg = (if neg then NegZero else Finite 0)"

definition signedInfinity :: "bool \<Rightarrow> number" where
  "signedInfinity neg = (if neg then NegInfinity else PosInfinity)"

text \<open>
  \<open>floorLog2 a\<close> is the binary exponent of a positive rational: the \<open>e\<close> with
  \<open>2 powi e \<le> a < 2 powi (e + 1)\<close> (lemma \<open>floorLog2_bounds\<close>). The bit lengths
  of numerator and denominator give it up to one.
\<close>

definition floorLog2 :: "rat \<Rightarrow> int" where
  "floorLog2 a =
    (let e = bitlen (fst (quotient_of a)) - bitlen (snd (quotient_of a))
     in if 2 powi e \<le> a then e else e - 1)"

definition roundTiesToEven :: "rat \<Rightarrow> int" where
  "roundTiesToEven m =
    (let n = \<lfloor>m\<rfloor>; d = m - of_int n
     in if d < 1 / 2 then n else if 1 / 2 < d then n + 1 else if even n then n else n + 1)"

text \<open>
  Rounding a positive magnitude: the unit in the last place is \<open>2 powi (e - 52)\<close>, with
  the exponent held at -1022 in the subnormal range; the magnitude is rounded to a multiple
  of it. A result of \<open>2 powi 1024\<close> or more is an overflow, a result of 0 an underflow.
\<close>

definition roundMagnitude :: "rat \<Rightarrow> rat" where
  "roundMagnitude a =
    (let e = max (floorLog2 a) (- 1022);
         ulp = 2 powi (e - 52)
     in of_int (roundTiesToEven (a / ulp)) * ulp)"

definition toDouble :: "rat \<Rightarrow> number" where
  "toDouble x =
    (let y = roundMagnitude \<bar>x\<bar>
     in if 2 powi 1024 \<le> y then signedInfinity (x < 0)
        else if y = 0 then signedZero (x < 0)
        else Finite (if x < 0 then - y else y))"

text \<open>
  \<^verbatim>\<open>x + y\<close>: NaN is contagious, opposite infinities give NaN, an exact sum of zero is
  \<^verbatim>\<open>+0\<close> unless both operands are \<^verbatim>\<open>-0\<close>.
\<close>

definition jsAdd :: "number \<Rightarrow> number \<Rightarrow> number" where
  "jsAdd x y =
    (if isNaN x \<or> isNaN y then NaN
     else if isInfinite x then (if isInfinite y \<and> signBit x \<noteq> signBit y then NaN else x)
     else if isInfinite y then y
     else if exact x + exact y = 0
          then (if isZero x \<and> isZero y \<and> signBit x \<and> signBit y then NegZero else Finite 0)
          else toDouble (exact x + exact y))"

text \<open>
  \<^verbatim>\<open>x / y\<close>: the sign is the exclusive or of the operands' signs; infinity over infinity
  and zero over zero are NaN.
\<close>

definition jsDivide :: "number \<Rightarrow> number \<Rightarrow> number" where
  "jsDivide x y =
    (if isNaN x \<or> isNaN y then NaN
     else if isInfinite x
          then (if isInfinite y then NaN else signedInfinity (signBit x \<noteq> signBit y))
     else if isInfinite y then signedZero (signBit x \<noteq> signBit y)
     else if isZero y
          then (if isZero x then NaN else signedInfinity (signBit x \<noteq> signBit y))
     else if isZero x then signedZero (signBit x \<noteq> signBit y)
     else toDouble (exact x / exact y))"

text \<open>\<^verbatim>\<open>x === y\<close> on numbers: NaN equals nothing, the two zeros are equal.\<close>

definition strictEquals :: "number \<Rightarrow> number \<Rightarrow> bool" where
  "strictEquals x y = (\<not> isNaN x \<and> \<not> isNaN y \<and> (isZero x \<and> isZero y \<or> x = y))"

text \<open>An array's \<^verbatim>\<open>length\<close>, as a number.\<close>

definition fromLength :: "nat \<Rightarrow> number" where
  "fromLength n = (if n = 0 then Finite 0 else toDouble (of_nat n))"

subsection \<open>Votes\<close>

text \<open>
  A vote is \<^verbatim>\<open>string | number\<close>. JavaScript truthiness of a vote: the zeros, NaN and
  \<^verbatim>\<open>""\<close> are falsy.
\<close>

datatype vote_value = NumberV number | StringV string

fun truthy :: "vote_value \<Rightarrow> bool" where
  "truthy (NumberV n) = (\<not> isZero n \<and> \<not> isNaN n)"
| "truthy (StringV s) = (s \<noteq> [])"

text \<open>\<^verbatim>\<open>values.filter(v => typeof v === 'number')\<close>\<close>

fun numbersOf :: "vote_value list \<Rightarrow> number list" where
  "numbersOf [] = []"
| "numbersOf (NumberV n # vs) = n # numbersOf vs"
| "numbersOf (StringV s # vs) = numbersOf vs"

text \<open>
  \<^verbatim>\<open>Record<string, string | number>\<close> is a plain object made by \<^verbatim>\<open>{}\<close>: an association
  list of its own properties, one entry per key, in the order the keys were created.

  \<^verbatim>\<open>obj[k] = v\<close> with a number or a string \<open>v\<close> creates or overwrites the own property
  \<open>k\<close>, except for \<^verbatim>\<open>k = "__proto__"\<close>: that assignment reaches the setter inherited
  from \<^verbatim>\<open>Object.prototype\<close>, which ignores a value that is neither an object nor
  \<^verbatim>\<open>null\<close>, so nothing is stored.

  \<^verbatim>\<open>obj[k]\<close> reads the own property if there is one (\<open>map_of\<close>); otherwise it finds
  \<^verbatim>\<open>undefined\<close> or a member inherited from \<^verbatim>\<open>Object.prototype\<close>, and in both cases
  \<^verbatim>\<open>delete obj[k]\<close> (\<open>AList.delete\<close>) has no own property to remove.

  \<^verbatim>\<open>Object.values(obj)\<close> lists the values of the keys that are array indices (canonical
  decimal numerals below \<open>2^32 - 1\<close>) in ascending numeric order, then the values of
  the other keys in creation order.
\<close>

definition objectSet :: "string \<Rightarrow> 'v \<Rightarrow> (string \<times> 'v) list \<Rightarrow> (string \<times> 'v) list" where
  "objectSet k v obj = (if k = ''__proto__'' then obj else AList.update k v obj)"

definition digitValue :: "char \<Rightarrow> nat option" where
  "digitValue c =
    map_of [(CHR ''0'', 0), (CHR ''1'', 1), (CHR ''2'', 2), (CHR ''3'', 3), (CHR ''4'', 4),
            (CHR ''5'', 5), (CHR ''6'', 6), (CHR ''7'', 7), (CHR ''8'', 8), (CHR ''9'', 9)] c"

fun decimalValue :: "nat \<Rightarrow> string \<Rightarrow> nat option" where
  "decimalValue acc [] = Some acc"
| "decimalValue acc (c # cs) =
    (case digitValue c of None \<Rightarrow> None | Some d \<Rightarrow> decimalValue (10 * acc + d) cs)"

definition arrayIndex :: "string \<Rightarrow> nat option" where
  "arrayIndex k =
    (case k of
       [] \<Rightarrow> None
     | c # cs \<Rightarrow>
        if c = CHR ''0'' \<and> cs \<noteq> [] then None
        else (case decimalValue 0 k of
                None \<Rightarrow> None
              | Some n \<Rightarrow> if n < 4294967295 then Some n else None))"

definition indexRank :: "string \<times> 'v \<Rightarrow> nat" where
  "indexRank e = (case arrayIndex (fst e) of None \<Rightarrow> 0 | Some n \<Rightarrow> n)"

definition objectValues :: "(string \<times> 'v) list \<Rightarrow> 'v list" where
  "objectValues obj =
    map snd (sort_key indexRank (filter (\<lambda>e. arrayIndex (fst e) \<noteq> None) obj)
             @ filter (\<lambda>e. arrayIndex (fst e) = None) obj)"

subsection \<open>Players, rounds and sessions\<close>

text \<open>Optional fields (\<^verbatim>\<open>vote?\<close>, \<^verbatim>\<open>hasVoted?\<close>, ...) are options; \<open>None\<close> is \<^verbatim>\<open>undefined\<close>.\<close>

record Player =
  p_id :: string
  p_name :: string
  vote :: "vote_value option"
  isCurrentUser :: "bool option"
  hasVoted :: "bool option"
  isOnline :: "bool option"

text \<open>Dates are milliseconds since the epoch.\<close>

record VotingRound =
  r_id :: string
  issueName :: "string option"
  votes :: "(string \<times> vote_value) list"
  startTime :: int
  endTime :: "int option"
  isRevealed :: bool
  average :: "number option"
  hasAgreement :: "bool option"

datatype permission = Everyone | Facilitator | Listed "string list"

record GameSettings =
  autoReveal :: bool
  showAverage :: bool
  showCountdown :: bool
  enableFunFeatures :: bool
  whoCanReveal :: permission
  whoCanManageIssues :: permission

text \<open>
  \<open>sharedVotes\<close> is not a field of the source. It makes one fact of the JavaScript heap
  explicit: \<^verbatim>\<open>revealVotes\<close> pushes a shallow copy of the current round, which shares
  the round's \<^verbatim>\<open>votes\<close> object, and that object is written in place until
  \<^verbatim>\<open>startVoting\<close> installs a new round. So the last \<open>sharedVotes\<close> entries of the
  history, the ones pushed since the round started, show every later change of its votes.
\<close>

record GameSession =
  s_id :: string
  s_name :: string
  facilitator :: string
  votingSystem :: string
  players :: "Player list"
  currentVote :: "VotingRound option"
  settings :: GameSettings
  history :: "VotingRound list"
  createdAt :: int
  lastActivity :: int
  sharedVotes :: nat

text \<open>
  The \<^verbatim>\<open>settings\<close> argument of \<^verbatim>\<open>updateSessionSettings\<close> is untyped in the source;
  it is a record of the settings keys it may carry, each optional.
\<close>

record SettingsPatch =
  patch_autoReveal :: "bool option"
  patch_showAverage :: "bool option"
  patch_showCountdown :: "bool option"
  patch_enableFunFeatures :: "bool option"
  patch_whoCanReveal :: "permission option"
  patch_whoCanManageIssues :: "permission option"

section \<open>SessionManager.ts\<close>

text \<open>
  \<^verbatim>\<open>private sessions = new Map<string, GameSession>()\<close>: a JavaScript Map keeps its
  entries in insertion order with one entry per key. \<^verbatim>\<open>get\<close> is \<open>map_of\<close>,
  \<^verbatim>\<open>set\<close> is \<open>AList.update\<close> (an existing key keeps its place), \<^verbatim>\<open>delete\<close> is
  \<open>AList.delete\<close>. A session object is shared by reference between the Map and the
  method that mutates it, so every mutation is written back under the session's key.
  \<^verbatim>\<open>new Date()\<close> and \<^verbatim>\<open>uuidv4()\<close> are arguments \<open>now\<close> and \<open>newId\<close>.
\<close>

type_synonym sessions = "(string \<times> GameSession) list"

definition createSession ::
  "string \<Rightarrow> int \<Rightarrow> string \<Rightarrow> string \<Rightarrow> string \<Rightarrow> sessions \<Rightarrow> GameSession \<times> sessions" where
  "createSession newId now sessionName facilitatorId facilitatorName sessions =
    (let session = \<lparr> s_id = newId, s_name = sessionName, facilitator = facilitatorId,
            votingSystem = ''simple'',
            players = [\<lparr> p_id = facilitatorId, p_name = facilitatorName, vote = None,
                         isCurrentUser = None, hasVoted = None, isOnline = Some True \<rparr>],
            currentVote = None,
            settings = \<lparr> autoReveal = False, showAverage = True, showCountdown = True,
                         enableFunFeatures = True, whoCanReveal = Everyone,
                         whoCanManageIssues = Facilitator \<rparr>,
            history = [], createdAt = now, lastActivity = now, sharedVotes = 0 \<rparr>
     in (session, AList.update (s_id session) session sessions))"

definition getSession :: "string \<Rightarrow> sessions \<Rightarrow> GameSession option" where
  "getSession sessionId sessions = map_of sessions sessionId"

text \<open>\<^verbatim>\<open>Array.prototype.findIndex\<close>: the first index whose element passes, or -1.\<close>

fun findIndexFrom :: "('a \<Rightarrow> bool) \<Rightarrow> int \<Rightarrow> 'a list \<Rightarrow> int" where
  "findIndexFrom P i [] = -1"
| "findIndexFrom P i (x # xs) = (if P x then i else findIndexFrom P (i + 1) xs)"

definition findIndex :: "('a \<Rightarrow> bool) \<Rightarrow> 'a list \<Rightarrow> int" where
  "findIndex P xs = findIndexFrom P 0 xs"

definition addPlayerToSession :: "int \<Rightarrow> string \<Rightarrow> Player \<Rightarrow> sessions \<Rightarrow> bool \<times> sessions" where
  "addPlayerToSession now sessionId player sessions =
    (case map_of sessions sessionId of
       None \<Rightarrow> (False, sessions)
     | Some session \<Rightarrow>
        (let existingPlayerIndex = findIndex (\<lambda>p. p_id p = p_id player) (players session);
             players' =
               (if existingPlayerIndex \<ge> 0
                then (players session)[nat existingPlayerIndex := player\<lparr>isOnline := Some True\<rparr>]
                else players session @ [player\<lparr>isOnline := Some True\<rparr>]);
             session' = session\<lparr>players := players', lastActivity := now\<rparr>
         in (True, AList.update sessionId session' sessions)))"

text \<open>
  A write to the current round's votes object, seen through the history entries that share
  it: the last \<open>n\<close> entries get the new votes.
\<close>

definition shareVotes ::
  "nat \<Rightarrow> (string \<times> vote_value) list \<Rightarrow> VotingRound list \<Rightarrow> VotingRound list" where
  "shareVotes n vs entries =
    take (length entries - n) entries
      @ map (\<lambda>entry. entry\<lparr>votes := vs\<rparr>) (drop (length entries - n) entries)"

definition removePlayerFromSession :: "int \<Rightarrow> string \<Rightarrow> string \<Rightarrow> sessions \<Rightarrow> bool \<times> sessions" where
  "removePlayerFromSession now sessionId playerId sessions =
    (case map_of sessions sessionId of
       None \<Rightarrow> (False, sessions)
     | Some session \<Rightarrow>
        (let players' = filter (\<lambda>p. p_id p \<noteq> playerId) (players session);
             session1 = session\<lparr>players := players'\<rparr>;
             session2 =
               (case currentVote session1 of
                  None \<Rightarrow> session1
                | Some cv \<Rightarrow>
                   (case map_of (votes cv) playerId of
                      None \<Rightarrow> session1
                    | Some v \<Rightarrow>
                       if truthy v
                       then (let votes' = AList.delete playerId (votes cv)
                             in session1\<lparr>currentVote := Some (cv\<lparr>votes := votes'\<rparr>),
                                         history := shareVotes (sharedVotes session1) votes'
                                                      (history session1)\<rparr>)
                       else session1));
             session' = session2\<lparr>lastActivity := now\<rparr>
         in (True, AList.update sessionId session' sessions)))"

text \<open>
  \<^verbatim>\<open>players.find(...)\<close> returns the first matching object, which is then mutated in
  place: \<open>updateFirst\<close> applies the mutation to the first match and to nothing else.
\<close>

fun updateFirst :: "('a \<Rightarrow> bool) \<Rightarrow> ('a \<Rightarrow> 'a) \<Rightarrow> 'a list \<Rightarrow> 'a list" where
  "updateFirst P f [] = []"
| "updateFirst P f (x # xs) = (if P x then f x # xs else x # updateFirst P f xs)"

definition updatePlayerVote ::
  "int \<Rightarrow> string \<Rightarrow> string \<Rightarrow> vote_value \<Rightarrow> sessions \<Rightarrow> bool \<times> sessions" where
  "updatePlayerVote now sessionId playerId v sessions =
    (case map_of sessions sessionId of
       None \<Rightarrow> (False, sessions)
     | Some session \<Rightarrow>
        (case currentVote session of
           None \<Rightarrow> (False, sessions)
         | Some cv \<Rightarrow>
            (let votes' = objectSet playerId v (votes cv);
                 cv' = cv\<lparr>votes := votes'\<rparr>;
                 players' = updateFirst (\<lambda>p. p_id p = playerId)
                              (\<lambda>player. player\<lparr>vote := Some v, hasVoted := Some True\<rparr>)
                              (players session);
                 session' = session\<lparr>players := players', currentVote := Some cv',
                                    history := shareVotes (sharedVotes session) votes'
                                                 (history session),
                                    lastActivity := now\<rparr>
             in (True, AList.update sessionId session' sessions))))"

definition startVoting ::
  "string \<Rightarrow> int \<Rightarrow> string \<Rightarrow> string option \<Rightarrow> sessions \<Rightarrow> VotingRound option \<times> sessions" where
  "startVoting newId now sessionId issue sessions =
    (case map_of sessions sessionId of
       None \<Rightarrow> (None, sessions)
     | Some session \<Rightarrow>
        (let votingRound = \<lparr> r_id = newId, issueName = issue, votes = [], startTime = now,
                              endTime = None, isRevealed = False, average = None,
                              hasAgreement = None \<rparr>;
             players' = map (\<lambda>player. player\<lparr>vote := None, hasVoted := Some False\<rparr>)
                          (players session);
             session' = session\<lparr>players := players', currentVote := Some votingRound,
                                lastActivity := now, sharedVotes := 0\<rparr>
         in (Some votingRound, AList.update sessionId session' sessions)))"

text \<open>
  The body of \<^verbatim>\<open>revealVotes\<close> on the current round: \<^verbatim>\<open>Object.values\<close>, the filter on
  \<^verbatim>\<open>typeof v === 'number'\<close>, \<^verbatim>\<open>reduce\<close> from 0 as a left fold, and \<^verbatim>\<open>every\<close>
  against \<^verbatim>\<open>numericVotes[0]\<close>, read only when the list is not empty.

  \<^verbatim>\<open>session.history.push({ ...session.currentVote })\<close> pushes a shallow copy: the entry has
  its own fields but shares the votes object of the round, which \<open>sharedVotes\<close> counts.
\<close>

definition numericVotesOf :: "(string \<times> vote_value) list \<Rightarrow> number list" where
  "numericVotesOf vs = numbersOf (objectValues vs)"

definition revealRound :: "int \<Rightarrow> VotingRound \<Rightarrow> VotingRound" where
  "revealRound now cv =
    (let cv1 = cv\<lparr>isRevealed := True, endTime := Some now\<rparr>;
         numericVotes = numericVotesOf (votes cv1)
     in if length numericVotes > 0
        then cv1\<lparr>average :=
                       Some (jsDivide (foldl (\<lambda>sum v. jsAdd sum v) (Finite 0) numericVotes)
                                      (fromLength (length numericVotes))),
                    hasAgreement :=
                       Some (list_all (\<lambda>v. strictEquals v (hd numericVotes)) numericVotes)\<rparr>
        else cv1)"

definition revealVotes :: "int \<Rightarrow> string \<Rightarrow> sessions \<Rightarrow> bool \<times> sessions" where
  "revealVotes now sessionId sessions =
    (case map_of sessions sessionId of
       None \<Rightarrow> (False, sessions)
     | Some session \<Rightarrow>
        (case currentVote session of
           None \<Rightarrow> (False, sessions)
         | Some cv \<Rightarrow>
            (let cv' = revealRound now cv;
                 session' = session\<lparr>currentVote := Some cv',
                                    history := history session @ [cv'],
                                    lastActivity := now,
                                    sharedVotes := sharedVotes session + 1\<rparr>
             in (True, AList.update sessionId session' sessions))))"

text \<open>
  \<^verbatim>\<open>{ ...session.settings, ...settings }\<close>: a key the patch carries overrides the
  session's value. \<^verbatim>\<open>if (facilitator)\<close>, \<^verbatim>\<open>if (name)\<close> and \<^verbatim>\<open>if (votingSystem)\<close>
  are truthiness tests: \<^verbatim>\<open>undefined\<close> (\<open>None\<close>) and the empty string do nothing.
\<close>

definition mergeSettings :: "GameSettings \<Rightarrow> SettingsPatch \<Rightarrow> GameSettings" where
  "mergeSettings st p =
    \<lparr> autoReveal = (case patch_autoReveal p of None \<Rightarrow> autoReveal st | Some b \<Rightarrow> b),
      showAverage = (case patch_showAverage p of None \<Rightarrow> showAverage st | Some b \<Rightarrow> b),
      showCountdown = (case patch_showCountdown p of None \<Rightarrow> showCountdown st | Some b \<Rightarrow> b),
      enableFunFeatures =
        (case patch_enableFunFeatures p of None \<Rightarrow> enableFunFeatures st | Some b \<Rightarrow> b),
      whoCanReveal = (case patch_whoCanReveal p of None \<Rightarrow> whoCanReveal st | Some w \<Rightarrow> w),
      whoCanManageIssues =
        (case patch_whoCanManageIssues p of None \<Rightarrow> whoCanManageIssues st | Some w \<Rightarrow> w) \<rparr>"

definition updateSessionSettings ::
  "int \<Rightarrow> string \<Rightarrow> SettingsPatch option \<Rightarrow> string option \<Rightarrow> string option \<Rightarrow> string option
     \<Rightarrow> sessions \<Rightarrow> bool \<times> sessions" where
  "updateSessionSettings now sessionId patch fac nm vsys sessions =
    (case map_of sessions sessionId of
       None \<Rightarrow> (False, sessions)
     | Some session \<Rightarrow>
        (let s1 = (case patch of None \<Rightarrow> session
                   | Some p \<Rightarrow> session\<lparr>settings := mergeSettings (settings session) p\<rparr>);
             s2 = (case fac of None \<Rightarrow> s1
                   | Some f \<Rightarrow> if f \<noteq> [] then s1\<lparr>facilitator := f\<rparr> else s1);
             s3 = (case nm of None \<Rightarrow> s2
                   | Some n \<Rightarrow> if n \<noteq> [] then s2\<lparr>s_name := n\<rparr> else s2);
             s4 = (case vsys of None \<Rightarrow> s3
                   | Some v \<Rightarrow> if v \<noteq> [] then s3\<lparr>votingSystem := v\<rparr> else s3);
             session' = s4\<lparr>lastActivity := now\<rparr>
         in (True, AList.update sessionId session' sessions)))"

text \<open>
  \<^verbatim>\<open>cleanupInactiveSessions\<close>: the \<^verbatim>\<open>for ... of this.sessions.entries()\<close> loop visits the
  entries in order; the body deletes the visited key from the Map and counts it. Deleting
  the entry being visited does not disturb the iteration of a JavaScript Map, so the loop
  runs over the entries present at its start while the Map shrinks.
\<close>

fun cleanupLoop ::
  "int \<Rightarrow> int \<Rightarrow> (string \<times> GameSession) list \<Rightarrow> sessions \<Rightarrow> nat \<Rightarrow> nat \<times> sessions" where
  "cleanupLoop now maxAge [] sessions cleaned = (cleaned, sessions)"
| "cleanupLoop now maxAge ((sessionId, session) # entries) sessions cleaned =
    (if now - lastActivity session > maxAge
     then cleanupLoop now maxAge entries (AList.delete sessionId sessions) (cleaned + 1)
     else cleanupLoop now maxAge entries sessions cleaned)"

definition cleanupInactiveSessions :: "int \<Rightarrow> int \<Rightarrow> sessions \<Rightarrow> nat \<times> sessions" where
  "cleanupInactiveSessions now maxAge sessions = cleanupLoop now maxAge sessions sessions 0"

definition getAllSessions :: "sessions \<Rightarrow> GameSession list" where
  "getAllSessions sessions = map snd sessions"

section \<open>The client store (lib/realtime.ts)\<close>


section \<open>PlayerManager.ts\<close>

text \<open>
  A WebSocket object is known by its identity, a handle; its \<^verbatim>\<open>readyState\<close> and the
  frames handed to \<^verbatim>\<open>ws.send\<close> live in the server state below.
\<close>

datatype ReadyState = CONNECTING | OPEN | CLOSING | CLOSED

record ConnectedPlayer =
  ws :: nat
  sessionId :: string
  userId :: string
  userName :: string
  lastHeartbeat :: int

record PlayerManager =
  connections :: "(string \<times> ConnectedPlayer) list"
  userToConnection :: "(string \<times> string) list"

definition addConnection ::
  "int \<Rightarrow> string \<Rightarrow> nat \<Rightarrow> string \<Rightarrow> string \<Rightarrow> string \<Rightarrow> PlayerManager \<Rightarrow> PlayerManager" where
  "addConnection now connectionId sock sid uid uname pm =
    (let player = \<lparr> ws = sock, sessionId = sid, userId = uid, userName = uname,
                     lastHeartbeat = now \<rparr>
     in pm\<lparr>connections := AList.update connectionId player (connections pm),
           userToConnection := AList.update (sid @ '':'' @ uid) connectionId (userToConnection pm)\<rparr>)"

definition removeConnection :: "string \<Rightarrow> PlayerManager \<Rightarrow> ConnectedPlayer option \<times> PlayerManager" where
  "removeConnection connectionId pm =
    (case map_of (connections pm) connectionId of
       None \<Rightarrow> (None, pm)
     | Some player \<Rightarrow>
        (Some player,
         pm\<lparr>connections := AList.delete connectionId (connections pm),
            userToConnection :=
              AList.delete (sessionId player @ '':'' @ userId player) (userToConnection pm)\<rparr>))"

definition getConnection :: "string \<Rightarrow> PlayerManager \<Rightarrow> ConnectedPlayer option" where
  "getConnection connectionId pm = map_of (connections pm) connectionId"

definition getConnectionsBySession :: "string \<Rightarrow> PlayerManager \<Rightarrow> ConnectedPlayer list" where
  "getConnectionsBySession sid pm =
    filter (\<lambda>player. sessionId player = sid) (map snd (connections pm))"

definition updateHeartbeat :: "int \<Rightarrow> string \<Rightarrow> PlayerManager \<Rightarrow> bool \<times> PlayerManager" where
  "updateHeartbeat now connectionId pm =
    (case map_of (connections pm) connectionId of
       None \<Rightarrow> (False, pm)
     | Some player \<Rightarrow>
        (True, pm\<lparr>connections :=
                    AList.update connectionId (player\<lparr>lastHeartbeat := now\<rparr>) (connections pm)\<rparr>))"

section \<open>server.ts\<close>

datatype SyncEvent =
    PLAYER_JOINED "Player option"
  | PLAYER_LEFT string
  | VOTE_SUBMITTED string vote_value
  | VOTING_STARTED "string option"
  | VOTES_REVEALED
  | SESSION_UPDATED GameSession
  | PLAYER_RECONNECTED string
  | PLAYER_DISCONNECTED string
  | SETTINGS_UPDATED "SettingsPatch option" "string option" "string option" "string option"
  | EMOJI_SENT string

datatype MessageType = M_join | M_leave | M_sync_event | M_heartbeat | M_other string

record WebSocketMessage =
  m_type :: MessageType
  m_sessionId :: "string option"
  m_userId :: "string option"
  m_userName :: "string option"
  m_event :: "SyncEvent option"
  m_timestamp :: int

datatype ResponseType = R_joined | R_error | R_sync_event | R_heartbeat_ack | R_session_not_found

record ServerResponse =
  resp_type :: ResponseType
  resp_message :: "string option"
  resp_event :: "SyncEvent option"
  resp_session :: "GameSession option"
  resp_timestamp :: int

text \<open>
  The module-level state: the two managers, and for every socket handle its
  \<^verbatim>\<open>readyState\<close> and the list of frames passed to its \<^verbatim>\<open>send\<close>, oldest first. A
  handler reads the clock several times; here it reads it once (\<open>now\<close>). The logger is
  left out.
\<close>

record Server =
  sessionManager :: sessions
  playerManager :: PlayerManager
  readyState :: "nat \<Rightarrow> ReadyState"
  sent :: "nat \<Rightarrow> ServerResponse list"

definition send :: "nat \<Rightarrow> ServerResponse \<Rightarrow> Server \<Rightarrow> Server" where
  "send sock message srv = srv\<lparr>sent := (sent srv)(sock := sent srv sock @ [message])\<rparr>"

definition sendSessionNotFound :: "int \<Rightarrow> nat \<Rightarrow> string \<Rightarrow> Server \<Rightarrow> Server" where
  "sendSessionNotFound now sock message srv =
    send sock \<lparr> resp_type = R_session_not_found, resp_message = Some message, resp_event = None,
                resp_session = None, resp_timestamp = now \<rparr> srv"

definition sendError :: "int \<Rightarrow> nat \<Rightarrow> string \<Rightarrow> Server \<Rightarrow> Server" where
  "sendError now sock message srv =
    send sock \<lparr> resp_type = R_error, resp_message = Some message, resp_event = None,
                resp_session = None, resp_timestamp = now \<rparr> srv"

text \<open>
  \<^verbatim>\<open>broadcastToSession\<close>: the \<^verbatim>\<open>forEach\<close> over the session's connections is a left fold.
  \<^verbatim>\<open>excludeConnectionId && ...\<close> is false for \<^verbatim>\<open>undefined\<close> and for the empty string;
  \<^verbatim>\<open>getConnection(excludeConnectionId)?.ws\<close> is \<^verbatim>\<open>undefined\<close>, equal to no socket, when
  the connection is unknown.
\<close>

definition excluded :: "string option \<Rightarrow> ConnectedPlayer \<Rightarrow> PlayerManager \<Rightarrow> bool" where
  "excluded excludeConnectionId player pm =
    (case excludeConnectionId of
       None \<Rightarrow> False
     | Some c \<Rightarrow> c \<noteq> [] \<and> map_option ws (getConnection c pm) = Some (ws player))"

definition broadcastToSession :: "string \<Rightarrow> ServerResponse \<Rightarrow> string option \<Rightarrow> Server \<Rightarrow> Server" where
  "broadcastToSession sid message excludeConnectionId srv =
    foldl (\<lambda>srv' player.
             if excluded excludeConnectionId player (playerManager srv') then srv'
             else if readyState srv' (ws player) = OPEN then send (ws player) message srv'
             else srv')
          srv (getConnectionsBySession sid (playerManager srv))"

text \<open>
  \<^verbatim>\<open>handleJoin\<close>. \<^verbatim>\<open>!sessionId || !userId || !userName\<close> holds for a missing field and
  for an empty one. The connection is registered before the session is looked up. After a
  successful \<^verbatim>\<open>addPlayerToSession\<close> the session is read again with a non-null
  assertion; were it absent, the \<^verbatim>\<open>joined\<close> frame would go out without a session and
  \<^verbatim>\<open>session.players\<close> would throw into the \<^verbatim>\<open>catch\<close> of the message handler, which
  answers \<^verbatim>\<open>Invalid message format\<close>.
\<close>

definition handleJoin :: "int \<Rightarrow> string \<Rightarrow> nat \<Rightarrow> WebSocketMessage \<Rightarrow> Server \<Rightarrow> Server" where
  "handleJoin now connectionId sock message srv =
    (case (m_sessionId message, m_userId message, m_userName message) of
       (Some sid, Some uid, Some uname) \<Rightarrow>
         if sid = [] \<or> uid = [] \<or> uname = []
         then sendError now sock ''Missing required fields for join'' srv
         else
          (let srv1 = srv\<lparr>playerManager :=
                           addConnection now connectionId sock sid uid uname (playerManager srv)\<rparr>
           in case getSession sid (sessionManager srv1) of
                None \<Rightarrow> sendSessionNotFound now sock ''Session not found'' srv1
              | Some _ \<Rightarrow>
                 (let (success, sm') =
                        addPlayerToSession now sid
                          \<lparr> p_id = uid, p_name = uname, vote = None, isCurrentUser = None,
                            hasVoted = None, isOnline = Some True \<rparr>
                          (sessionManager srv1);
                      srv2 = srv1\<lparr>sessionManager := sm'\<rparr>
                  in if success
                     then
                      (let session = getSession sid sm';
                           srv3 = send sock \<lparr> resp_type = R_joined, resp_message = None,
                                               resp_event = None, resp_session = session,
                                               resp_timestamp = now \<rparr> srv2
                       in case session of
                            None \<Rightarrow> sendError now sock ''Invalid message format'' srv3
                          | Some s \<Rightarrow>
                             broadcastToSession sid
                               \<lparr> resp_type = R_sync_event, resp_message = None,
                                 resp_event =
                                   Some (PLAYER_JOINED (find (\<lambda>p. p_id p = uid) (players s))),
                                 resp_session = None, resp_timestamp = now \<rparr>
                               (Some connectionId) srv3)
                     else sendError now sock ''Failed to join session'' srv2))
     | _ \<Rightarrow> sendError now sock ''Missing required fields for join'' srv)"

text \<open>
  \<^verbatim>\<open>handleSyncEvent\<close>: the registry call chosen by the event type, its result dropped,
  then the broadcast with no excluded connection. \<open>newId\<close> is the identifier
  \<^verbatim>\<open>startVoting\<close> draws. Events are well-typed: each carries the payload of its
  kind, so the destructuring of \<^verbatim>\<open>event.payload\<close> does not throw.
\<close>

definition applyEvent :: "string \<Rightarrow> int \<Rightarrow> string \<Rightarrow> SyncEvent \<Rightarrow> sessions \<Rightarrow> sessions" where
  "applyEvent newId now sid event sm =
    (case event of
       VOTE_SUBMITTED playerId v \<Rightarrow> snd (updatePlayerVote now sid playerId v sm)
     | VOTING_STARTED issue \<Rightarrow> snd (startVoting newId now sid issue sm)
     | VOTES_REVEALED \<Rightarrow> snd (revealVotes now sid sm)
     | SETTINGS_UPDATED patch fac nm vsys \<Rightarrow>
         snd (updateSessionSettings now sid patch fac nm vsys sm)
     | PLAYER_LEFT leftPlayerId \<Rightarrow> snd (removePlayerFromSession now sid leftPlayerId sm)
     | _ \<Rightarrow> sm)"

definition handleSyncEvent :: "string \<Rightarrow> int \<Rightarrow> string \<Rightarrow> WebSocketMessage \<Rightarrow> Server \<Rightarrow> Server" where
  "handleSyncEvent newId now connectionId message srv =
    (case getConnection connectionId (playerManager srv) of
       None \<Rightarrow> srv
     | Some player \<Rightarrow>
        (case m_event message of
           None \<Rightarrow> srv
         | Some event \<Rightarrow>
            broadcastToSession (sessionId player)
              \<lparr> resp_type = R_sync_event, resp_message = None, resp_event = Some event,
                resp_session = None, resp_timestamp = now \<rparr>
              None
              (srv\<lparr>sessionManager :=
                     applyEvent newId now (sessionId player) event (sessionManager srv)\<rparr>)))"

definition handleHeartbeat :: "int \<Rightarrow> string \<Rightarrow> nat \<Rightarrow> Server \<Rightarrow> Server" where
  "handleHeartbeat now connectionId sock srv =
    send sock \<lparr> resp_type = R_heartbeat_ack, resp_message = None, resp_event = None,
                resp_session = None, resp_timestamp = now \<rparr>
      (srv\<lparr>playerManager := snd (updateHeartbeat now connectionId (playerManager srv))\<rparr>)"

text \<open>
  \<^verbatim>\<open>handleLeave\<close> and the \<^verbatim>\<open>ws.on('close')\<close> handler differ in the event they
  broadcast only.
\<close>

definition disconnect :: "(string \<Rightarrow> SyncEvent) \<Rightarrow> int \<Rightarrow> string \<Rightarrow> Server \<Rightarrow> Server" where
  "disconnect notice now connectionId srv =
    (case removeConnection connectionId (playerManager srv) of
       (None, _) \<Rightarrow> srv
     | (Some player, pm') \<Rightarrow>
        broadcastToSession (sessionId player)
          \<lparr> resp_type = R_sync_event, resp_message = None,
            resp_event = Some (notice (userId player)),
            resp_session = None, resp_timestamp = now \<rparr>
          None
          (srv\<lparr>playerManager := pm',
                sessionManager :=
                  snd (removePlayerFromSession now (sessionId player) (userId player)
                         (sessionManager srv))\<rparr>))"

definition handleLeave :: "int \<Rightarrow> string \<Rightarrow> Server \<Rightarrow> Server" where
  "handleLeave now connectionId srv = disconnect PLAYER_LEFT now connectionId srv"

definition onClose :: "int \<Rightarrow> string \<Rightarrow> Server \<Rightarrow> Server" where
  "onClose now connectionId srv = disconnect PLAYER_DISCONNECTED now connectionId srv"

definition handleMessage :: "string \<Rightarrow> int \<Rightarrow> string \<Rightarrow> nat \<Rightarrow> WebSocketMessage \<Rightarrow> Server \<Rightarrow> Server" where
  "handleMessage newId now connectionId sock message srv =
    (case m_type message of
       M_join \<Rightarrow> handleJoin now connectionId sock message srv
     | M_sync_event \<Rightarrow> handleSyncEvent newId now connectionId message srv
     | M_heartbeat \<Rightarrow> handleHeartbeat now connectionId sock srv
     | M_leave \<Rightarrow> handleLeave now connectionId srv
     | M_other _ \<Rightarrow> sendError now sock ''Unknown message type'' srv)"

section \<open>Example states and drivers\<close>

text \<open>
  The scenario of the specification: Alice creates session "Sprint 4", Bob joins, a round
  on "Login bug" starts, Alice votes 3 and Bob votes 5, and the round is revealed.
\<close>

definition alice :: Player where
  "alice = \<lparr> p_id = ''a'', p_name = ''Alice'', vote = None, isCurrentUser = None,
             hasVoted = None, isOnline = Some True \<rparr>"

definition bob :: Player where
  "bob = \<lparr> p_id = ''b'', p_name = ''Bob'', vote = None, isCurrentUser = None,
           hasVoted = None, isOnline = Some True \<rparr>"

definition defaultSettings :: GameSettings where
  "defaultSettings = \<lparr> autoReveal = False, showAverage = True, showCountdown = True,
                        enableFunFeatures = True, whoCanReveal = Everyone,
                        whoCanManageIssues = Facilitator \<rparr>"

definition lobby :: GameSession where
  "lobby = \<lparr> s_id = ''s1'', s_name = ''Sprint 4'', facilitator = ''a'',
             votingSystem = ''simple'', players = [alice, bob], currentVote = None,
             settings = defaultSettings, history = [], createdAt = 0, lastActivity = 1,
             sharedVotes = 0 \<rparr>"

definition openRound :: VotingRound where
  "openRound = \<lparr> r_id = ''r1'', issueName = Some ''Login bug'',
                 votes = [(''a'', NumberV (Finite 3)), (''b'', NumberV (Finite 5))], startTime = 2,
                 endTime = None, isRevealed = False, average = None, hasAgreement = None \<rparr>"

definition voting :: GameSession where
  "voting = lobby\<lparr> players := [alice\<lparr>vote := Some (NumberV (Finite 3)), hasVoted := Some True\<rparr>,
                                bob\<lparr>vote := Some (NumberV (Finite 5)), hasVoted := Some True\<rparr>],
                    currentVote := Some openRound, lastActivity := 4 \<rparr>"

definition closedRound :: VotingRound where
  "closedRound = openRound\<lparr> endTime := Some 5, isRevealed := True, average := Some (Finite 4),
                            hasAgreement := Some False \<rparr>"

definition revealed :: GameSession where
  "revealed = voting\<lparr> currentVote := Some closedRound, history := [closedRound],
                       lastActivity := 5, sharedVotes := 1 \<rparr>"

text \<open>A round that has just been started, and the session holding it.\<close>

definition emptyRound :: VotingRound where
  "emptyRound = \<lparr> r_id = ''r1'', issueName = None, votes = [], startTime = 2,
                  endTime = None, isRevealed = False, average = None, hasAgreement = None \<rparr>"

definition started :: GameSession where
  "started = lobby\<lparr> players := [alice\<lparr>hasVoted := Some False\<rparr>, bob\<lparr>hasVoted := Some False\<rparr>],
                     currentVote := Some emptyRound, lastActivity := 2 \<rparr>"

text \<open>
  A round revealed once with Alice's vote 5, after which Alice's vote was replaced by
  \<^verbatim>\<open>"?"\<close>: its statistics date from the first reveal. The history entry pushed by
  that reveal shares the round's votes object, so it shows the later vote as well.
\<close>

definition staleRound :: VotingRound where
  "staleRound = \<lparr> r_id = ''r1'', issueName = None, votes = [(''a'', StringV ''?'')],
                  startTime = 2, endTime = Some 4, isRevealed = True, average = Some (Finite 5),
                  hasAgreement = Some True \<rparr>"

definition stale :: GameSession where
  "stale = lobby\<lparr> players := [alice\<lparr>vote := Some (StringV ''?''), hasVoted := Some True\<rparr>,
                               bob\<lparr>vote := None, hasVoted := Some False\<rparr>],
                   currentVote := Some staleRound,
                   history := [staleRound], lastActivity := 5, sharedVotes := 1 \<rparr>"


text \<open>A session last touched fifteen minutes before the epoch, and the loop's test.\<close>

definition dormant :: GameSession where
  "dormant = lobby\<lparr> s_id := ''s0'', s_name := ''Sprint 3'', lastActivity := -900000 \<rparr>"

definition inactive :: "int \<Rightarrow> int \<Rightarrow> GameSession \<Rightarrow> bool" where
  "inactive now maxAge session = (now - lastActivity session > maxAge)"

text \<open>
  Server states: Alice and Bob connected to session \<open>s1\<close> on sockets 1 and 2, with
  both sockets open or with Bob's socket closing; and a server nobody has joined yet. The
  frames the handlers build for a relayed event and for an unknown session.
\<close>

definition aliceConn :: ConnectedPlayer where
  "aliceConn = \<lparr> ws = 1, sessionId = ''s1'', userId = ''a'', userName = ''Alice'',
                  lastHeartbeat = 2 \<rparr>"

definition bobConn :: ConnectedPlayer where
  "bobConn = \<lparr> ws = 2, sessionId = ''s1'', userId = ''b'', userName = ''Bob'',
                lastHeartbeat = 2 \<rparr>"

definition bothJoined :: PlayerManager where
  "bothJoined = \<lparr> connections = [(''c1'', aliceConn), (''c2'', bobConn)],
                   userToConnection = [(''s1:a'', ''c1''), (''s1:b'', ''c2'')] \<rparr>"

definition serverOpen :: Server where
  "serverOpen = \<lparr> sessionManager = [(''s1'', started)], playerManager = bothJoined,
                   readyState = (\<lambda>sock. OPEN), sent = (\<lambda>sock. []) \<rparr>"

definition serverClosing :: Server where
  "serverClosing = serverOpen\<lparr> readyState := (\<lambda>sock. OPEN)(2 := CLOSING) \<rparr>"

definition voteMessage :: WebSocketMessage where
  "voteMessage = \<lparr> m_type = M_sync_event, m_sessionId = None, m_userId = None,
                    m_userName = None, m_event = Some (VOTE_SUBMITTED ''a'' (NumberV (Finite 3))),
                    m_timestamp = 3 \<rparr>"

definition joinUnknown :: WebSocketMessage where
  "joinUnknown = \<lparr> m_type = M_join, m_sessionId = Some ''nope'', m_userId = Some ''e'',
                    m_userName = Some ''Eve'', m_event = None, m_timestamp = 7 \<rparr>"

definition serverIdle :: Server where
  "serverIdle = \<lparr> sessionManager = [(''s1'', lobby)],
                   playerManager = \<lparr> connections = [], userToConnection = [] \<rparr>,
                   readyState = (\<lambda>sock. OPEN), sent = (\<lambda>sock. []) \<rparr>"

definition sessionNotFound :: "int \<Rightarrow> ServerResponse" where
  "sessionNotFound now = \<lparr> resp_type = R_session_not_found,
                           resp_message = Some ''Session not found'', resp_event = None,
                           resp_session = None, resp_timestamp = now \<rparr>"

definition emojiMessage :: WebSocketMessage where
  "emojiMessage = \<lparr> m_type = M_sync_event, m_sessionId = None, m_userId = None,
                     m_userName = None, m_event = Some (EMOJI_SENT ''wave''),
                     m_timestamp = 9 \<rparr>"

definition syncNotice :: "SyncEvent \<Rightarrow> int \<Rightarrow> ServerResponse" where
  "syncNotice event now = \<lparr> resp_type = R_sync_event, resp_message = None,
                             resp_event = Some event, resp_session = None,
                             resp_timestamp = now \<rparr>"

section \<open>Auxiliary facts\<close>

lemma findIndexFrom_eq:
  "findIndexFrom P i xs =
     (if \<exists>x\<in>set xs. P x then i + int (length (takeWhile (\<lambda>x. \<not> P x) xs)) else -1)"
  by (induction xs arbitrary: i) auto

lemma findIndex_eq:
  "findIndex P xs =
     (if \<exists>x\<in>set xs. P x then int (length (takeWhile (\<lambda>x. \<not> P x) xs)) else -1)"
  by (simp add: findIndex_def findIndexFrom_eq)

lemma takeWhile_first_length:
  "\<exists>x\<in>set xs. P x \<Longrightarrow> length (takeWhile (\<lambda>x. \<not> P x) xs) < length xs"
  by (induction xs) auto

lemma takeWhile_first_hit:
  "\<exists>x\<in>set xs. P x \<Longrightarrow> P (xs ! length (takeWhile (\<lambda>x. \<not> P x) xs))"
  by (induction xs) auto

lemma takeWhile_first_before:
  "j < length (takeWhile (\<lambda>x. \<not> P x) xs) \<Longrightarrow> \<not> P (xs ! j)"
  by (metis takeWhile_nth nth_mem set_takeWhileD)

text \<open>
  Rounding to a double. \<open>floorLog2\<close> is the binary exponent; a value whose scaled
  magnitude lies within a half of an integer rounds to that integer times the unit in the
  last place.
\<close>

lemma powi_le_less_unique:
  fixes a :: rat
  assumes "2 powi e \<le> a" "a < 2 powi (e + 1)" "2 powi r \<le> a" "a < 2 powi (r + 1)"
  shows "r = e"
proof (rule ccontr)
  assume "r \<noteq> e"
  then consider "r + 1 \<le> e" | "e + 1 \<le> r" by linarith
  then show False
  proof cases
    case 1
    then have "(2::rat) powi (r + 1) \<le> 2 powi e" by (intro power_int_increasing) auto
    with assms show False by linarith
  next
    case 2
    then have "(2::rat) powi (e + 1) \<le> 2 powi r" by (intro power_int_increasing) auto
    with assms show False by linarith
  qed
qed

lemma bitlen_powi_bounds:
  assumes "0 < (n::int)"
  shows "(2::rat) powi (bitlen n - 1) \<le> of_int n" and "of_int n < (2::rat) powi (bitlen n)"
proof -
  from assms have b1: "1 \<le> bitlen n"
    by (auto simp: bitlen_alt_def)
  from bitlen_bounds [OF assms] have l: "2 ^ nat (bitlen n - 1) \<le> n" and u: "n < 2 ^ nat (bitlen n)"
    by auto
  from l have "(of_int (2 ^ nat (bitlen n - 1)) :: rat) \<le> of_int n" by (simp only: of_int_le_iff)
  then show "(2::rat) powi (bitlen n - 1) \<le> of_int n"
    using b1 by (simp add: power_int_def)
  from u have "(of_int n :: rat) < of_int (2 ^ nat (bitlen n))" by (simp only: of_int_less_iff)
  then show "of_int n < (2::rat) powi (bitlen n)"
    using b1 by (simp add: power_int_def)
qed

lemma floorLog2_bounds:
  assumes "0 < a"
  shows "2 powi (floorLog2 a) \<le> a \<and> a < 2 powi (floorLog2 a + 1)"
proof -
  obtain p q where pq: "quotient_of a = (p, q)" by (cases "quotient_of a")
  then have q: "0 < q" and a: "a = of_int p / of_int q"
    by (auto simp: quotient_of_denom_pos quotient_of_div)
  with assms have p: "0 < p"
    by (simp add: zero_less_divide_iff)
  let ?e = "bitlen p - bitlen q"
  note bp = bitlen_powi_bounds [OF p] and bq = bitlen_powi_bounds [OF q]
  have qpos: "(0::rat) < of_int q" using q by simp
  have up: "a < 2 powi (?e + 1)"
  proof -
    have "a * of_int q = of_int p" using a qpos by simp
    also have "\<dots> < 2 powi (bitlen p)" by (rule bp)
    also have "\<dots> = 2 powi (?e + 1) * 2 powi (bitlen q - 1)"
      by (simp flip: power_int_add)
    also have "\<dots> \<le> 2 powi (?e + 1) * of_int q"
      using bq(1) by (intro mult_left_mono) auto
    finally show ?thesis using qpos by simp
  qed
  have lo: "2 powi (?e - 1) \<le> a"
  proof -
    have "(2::rat) powi (?e - 1) * of_int q \<le> 2 powi (?e - 1) * 2 powi (bitlen q)"
      using bq(2) by (intro mult_left_mono) auto
    also have "\<dots> = 2 powi (bitlen p - 1)" by (simp flip: power_int_add)
    also have "\<dots> \<le> of_int p" by (rule bp)
    also have "\<dots> = a * of_int q" using a qpos by simp
    finally show ?thesis using qpos by simp
  qed
  show ?thesis
    using up lo by (auto simp: floorLog2_def pq Let_def)
qed

lemma floorLog2_eqI:
  assumes "2 powi e \<le> a" and "a < 2 powi (e + 1)"
  shows "floorLog2 a = e"
proof -
  have "0 < a" using assms(1) zero_less_power_int [of "2::rat" e] by linarith
  from floorLog2_bounds [OF this] assms show ?thesis
    by (intro powi_le_less_unique [of e a]) auto
qed

lemma roundTiesToEven_near:
  assumes "\<bar>m - of_int n\<bar> < 1 / 2"
  shows "roundTiesToEven m = n"
proof (cases "of_int n \<le> m")
  case True
  with assms have "\<lfloor>m\<rfloor> = n" by (intro floor_unique) auto
  with assms True show ?thesis by (simp add: roundTiesToEven_def Let_def)
next
  case False
  with assms have f: "\<lfloor>m\<rfloor> = n - 1" by (intro floor_unique) auto
  from False assms have "1 / 2 < m - of_int (n - 1)" by simp
  with f show ?thesis by (simp add: roundTiesToEven_def Let_def)
qed

lemma roundTiesToEven_tie:
  assumes "m = of_int n + 1 / 2"
  shows "roundTiesToEven m = (if even n then n else n + 1)"
proof -
  from assms have "\<lfloor>m\<rfloor> = n" by (intro floor_unique) auto
  with assms show ?thesis by (simp add: roundTiesToEven_def Let_def)
qed

lemma roundMagnitude_eqI:
  assumes "2 powi e \<le> a" and "a < 2 powi (e + 1)" and "- 1022 \<le> e"
      and "\<bar>a / 2 powi (e - 52) - of_int n\<bar> < 1 / 2"
  shows "roundMagnitude a = of_int n * 2 powi (e - 52)"
proof -
  have fl: "floorLog2 a = e" using assms(1,2) by (rule floorLog2_eqI)
  have m: "max e (- 1022) = e" using assms(3) by simp
  have r: "roundTiesToEven (a / 2 powi (e - 52)) = n"
    using assms(4) by (rule roundTiesToEven_near)
  show ?thesis
    unfolding roundMagnitude_def Let_def fl m r ..
qed

lemma toDouble_eqI:
  assumes "2 powi e \<le> \<bar>x\<bar>" and "\<bar>x\<bar> < 2 powi (e + 1)" and "- 1022 \<le> e"
      and "\<bar>\<bar>x\<bar> / 2 powi (e - 52) - of_int n\<bar> < 1 / 2"
      and "0 < n" and "of_int n * 2 powi (e - 52) < (2::rat) powi 1024"
  shows "toDouble x = Finite (if x < 0 then - (of_int n * 2 powi (e - 52))
                              else of_int n * 2 powi (e - 52))"
proof -
  have rm: "roundMagnitude \<bar>x\<bar> = of_int n * 2 powi (e - 52)"
    using assms(1-4) by (rule roundMagnitude_eqI)
  have pos: "(0::rat) < of_int n * 2 powi (e - 52)"
    using assms(5) by (simp add: zero_less_mult_iff)
  have a: "\<not> (2::rat) powi 1024 \<le> of_int n * 2 powi (e - 52)"
    using assms(6) by (simp only: not_le)
  have b: "of_int n * 2 powi (e - 52) \<noteq> (0::rat)"
    using pos by (rule less_imp_neq [symmetric])
  show ?thesis
    unfolding toDouble_def Let_def rm
    by (simp only: a b if_False)
qed

lemma scale_int:
  fixes a :: rat
  assumes "e < 53"
  shows "a / 2 powi (e - 52) = a * 2 ^ nat (52 - e)"
proof -
  have "(2::rat) powi (e - 52) = inverse (2 powi (52 - e))"
    using power_int_minus [of "2::rat" "52 - e"] by simp
  moreover have "(2::rat) powi (52 - e) = 2 ^ nat (52 - e)"
    using assms by (simp add: power_int_def)
  ultimately show ?thesis by (simp add: divide_inverse)
qed

lemma powi_less_cancel:
  assumes "(2::rat) powi a < 2 powi b"
  shows "a < b"
proof (rule ccontr)
  assume "\<not> a < b"
  then have "b \<le> a" by simp
  then have "(2::rat) powi b \<le> 2 powi a" by (intro power_int_increasing) auto
  with assms show False by simp
qed

lemma floorLog2_of_small:
  fixes a :: rat
  assumes "1 \<le> a" and "a < 2 powi 53"
  shows "0 \<le> floorLog2 a" and "floorLog2 a < 53"
proof -
  from assms(1) have a0: "0 < a" by linarith
  from floorLog2_bounds [OF a0]
  have lo: "2 powi (floorLog2 a) \<le> a" and hi: "a < 2 powi (floorLog2 a + 1)" by auto
  from lo assms(2) have "(2::rat) powi (floorLog2 a) < 2 powi 53" by (rule le_less_trans)
  then show "floorLog2 a < 53" by (rule powi_less_cancel)
  have "(2::rat) powi 0 \<le> a" using assms(1) by (simp only: power_int_0_right)
  then have "(2::rat) powi 0 < 2 powi (floorLog2 a + 1)" using hi by (rule le_less_trans)
  then have "0 < floorLog2 a + 1" by (rule powi_less_cancel)
  then show "0 \<le> floorLog2 a" by simp
qed

lemma toDouble_of_int:
  assumes "k \<noteq> 0" and "\<bar>k\<bar> < 2 ^ 53"
  shows "toDouble (of_int k) = Finite (of_int k)"
proof -
  define a :: rat where "a = of_int \<bar>k\<bar>"
  define e where "e = floorLog2 a"
  define n where "n = \<bar>k\<bar> * 2 ^ nat (52 - e)"
  define u :: rat where "u = 2 powi (e - 52)"
  have absk: "\<bar>of_int k :: rat\<bar> = a" by (simp add: a_def)
  have "1 \<le> \<bar>k\<bar>" using assms(1) by simp
  then have a1: "1 \<le> a" unfolding a_def by (simp only: of_int_1_le_iff)
  then have a0: "0 < a" by linarith
  have "a < of_int (2 ^ 53)" unfolding a_def using assms(2) by (simp only: of_int_less_iff)
  then have a53: "a < 2 powi 53" by simp
  from floorLog2_bounds [OF a0] have lo: "2 powi e \<le> a" and hi: "a < 2 powi (e + 1)"
    by (auto simp: e_def)
  from floorLog2_of_small [OF a1 a53] have e0: "0 \<le> e" and e53: "e < 53"
    by (auto simp: e_def)
  have sc: "a / u = of_int n"
    unfolding u_def scale_int [OF e53] n_def a_def by simp
  have u0: "0 < u" unfolding u_def by simp
  have unscale: "of_int n * u = a"
    using sc u0 by (simp add: field_simps)
  have n0: "0 < n" unfolding n_def using assms(1) by simp
  have "(2::rat) powi 53 \<le> 2 powi 1024" by (intro power_int_increasing) auto
  with a53 have "a < 2 powi 1024" by (rule less_le_trans)
  then have rng: "of_int n * u < 2 powi 1024" by (simp only: unscale)
  have near: "\<bar>\<bar>of_int k :: rat\<bar> / u - of_int n\<bar> < 1 / 2"
    by (simp add: absk sc)
  have "toDouble (of_int k) =
          Finite (if (of_int k :: rat) < 0 then - (of_int n * 2 powi (e - 52))
                  else of_int n * 2 powi (e - 52))"
  proof (rule toDouble_eqI)
    show "2 powi e \<le> \<bar>of_int k :: rat\<bar>" using lo by (simp only: absk)
    show "\<bar>of_int k :: rat\<bar> < 2 powi (e + 1)" using hi by (simp only: absk)
    show "- 1022 \<le> e" using e0 by simp
    show "\<bar>\<bar>of_int k :: rat\<bar> / 2 powi (e - 52) - of_int n\<bar> < 1 / 2"
      using near by (simp only: u_def)
    show "0 < n" by (rule n0)
    show "of_int n * 2 powi (e - 52) < (2::rat) powi 1024" using rng by (simp only: u_def)
  qed
  then have "toDouble (of_int k) = Finite (if (of_int k :: rat) < 0 then - a else a)"
    using unscale by (simp only: u_def)
  moreover have "(if (of_int k :: rat) < 0 then - a else a) = of_int k"
    unfolding a_def by (simp add: abs_if)
  ultimately show ?thesis by (simp only:)
qed


lemma toDouble_numeral:
  "numeral k < (2::int) ^ 53 \<Longrightarrow> toDouble (numeral k) = Finite (numeral k)"
  using toDouble_of_int [of "numeral k"] by simp

lemma toDouble_1: "toDouble 1 = Finite 1"
  using toDouble_of_int [of 1] by simp

lemma fromLength_exact: "n < 2 ^ 53 \<Longrightarrow> fromLength n = Finite (of_nat n)"
  using toDouble_of_int [of "int n"] by (auto simp: fromLength_def)

text \<open>
  The sum of two integers is exact while it stays below \<open>2^53\<close>; the quotient
  \<open>11 / 3\<close> is not a double and rounds down to \<open>8256599316845909 / 2^51\<close>, which
  prints as \<^verbatim>\<open>3.6666666666666665\<close>; and \<open>2^1023 + 2^1023\<close> overflows.
\<close>

lemma jsAdd_of_int:
  assumes "\<bar>a + b\<bar> < 2 ^ 53"
  shows "jsAdd (Finite (of_int a)) (Finite (of_int b)) = Finite (of_int (a + b))"
proof (cases "a + b = 0")
  case True
  then have "(of_int a :: rat) + of_int b = 0"
    by (simp flip: of_int_add)
  then show ?thesis using True by (simp add: jsAdd_def)
next
  case False
  then have "(of_int a :: rat) + of_int b \<noteq> 0"
    by (simp flip: of_int_add)
  then show ?thesis
    using toDouble_of_int [OF False assms] by (simp add: jsAdd_def)
qed

lemma toDouble_11_3: "toDouble (11 / 3) = Finite (8256599316845909 / 2 ^ 51)"
  using toDouble_eqI [of 1 "11 / 3" 8256599316845909] by simp

lemma toDouble_overflow: "toDouble (2 ^ 1024) = PosInfinity"
proof -
  have "roundMagnitude (2 ^ 1024) = of_int (2 ^ 52) * 2 powi (1024 - 52)"
    by (rule roundMagnitude_eqI) simp_all
  then have "roundMagnitude (2 ^ 1024) = 2 ^ 1024"
    by simp
  then show ?thesis
    by (simp add: toDouble_def signedInfinity_def)
qed

lemma toDouble_0: "toDouble 0 = Finite 0"
  by (simp add: toDouble_def roundMagnitude_def roundTiesToEven_def signedZero_def Let_def)

lemma literal_rounding_example:
  "toDouble 18014398509481985 = Finite 18014398509481984"
  using toDouble_eqI [of 54 18014398509481985 "2 ^ 52"] by simp

text \<open>
  Rounding is idempotent, so every finite result of \<^verbatim>\<open>+\<close>, of \<^verbatim>\<open>/\<close> and of
  \<^verbatim>\<open>length\<close> is a double.
\<close>

lemma roundTiesToEven_of_int: "roundTiesToEven (of_int n) = n"
  using roundTiesToEven_near [of "of_int n" n] by simp

lemma roundTiesToEven_floor:
  "roundTiesToEven m = \<lfloor>m\<rfloor> \<or> roundTiesToEven m = \<lfloor>m\<rfloor> + 1 \<and> m \<noteq> of_int \<lfloor>m\<rfloor>"
  by (auto simp: roundTiesToEven_def Let_def)

lemma roundTiesToEven_lower:
  assumes "of_int k \<le> m"
  shows "k \<le> roundTiesToEven m"
proof -
  have "k \<le> \<lfloor>m\<rfloor>" using assms by (simp add: le_floor_iff)
  with roundTiesToEven_floor [of m] show ?thesis by auto
qed

lemma roundTiesToEven_upper:
  assumes "m \<le> of_int k"
  shows "roundTiesToEven m \<le> k"
proof -
  have f: "\<lfloor>m\<rfloor> \<le> k" using assms by (metis floor_mono floor_of_int)
  from roundTiesToEven_floor [of m] show ?thesis
  proof
    assume "roundTiesToEven m = \<lfloor>m\<rfloor>"
    with f show ?thesis by simp
  next
    assume a: "roundTiesToEven m = \<lfloor>m\<rfloor> + 1 \<and> m \<noteq> of_int \<lfloor>m\<rfloor>"
    then have "m \<noteq> of_int k" using floor_of_int [of k] by metis
    with assms have "m < of_int k" by simp
    then have "\<lfloor>m\<rfloor> < k" by (simp add: floor_less_iff)
    with a show ?thesis by simp
  qed
qed

lemma roundMagnitude_0: "roundMagnitude 0 = 0"
  by (simp add: roundMagnitude_def roundTiesToEven_def Let_def)

lemma powi_split:
  "(2::rat) powi (e + k) = 2 powi k * 2 powi e"
  using power_int_add [of "2::rat" k e] by (simp add: add.commute)

lemma roundMagnitude_idem:
  assumes "0 < a"
  shows "roundMagnitude (roundMagnitude a) = roundMagnitude a"
proof -
  define e where "e = max (floorLog2 a) (- 1022)"
  define u :: rat where "u = 2 powi (e - 52)"
  define n where "n = roundTiesToEven (a / u)"
  define K :: int where "K = 2 ^ 52"
  define y where "y = of_int n * u"
  have y: "roundMagnitude a = y"
    by (simp add: roundMagnitude_def Let_def e_def u_def n_def y_def)
  have u0: "0 < u" by (simp add: u_def)
  have K0: "0 < K" by (simp add: K_def)
  have e1022: "- 1022 \<le> e" by (simp add: e_def)
  have fle: "floorLog2 a \<le> e" by (simp add: e_def)
  have K: "(of_int K :: rat) = 2 powi 52" by (simp add: K_def)
  have p52: "2 powi e = of_int K * u"
    unfolding K u_def using powi_split [of "e - 52" 52] by simp
  have p53: "2 powi (e + 1) = of_int (2 * K) * u"
    using powi_split [of e 1] p52 by simp
  have p54: "2 powi (e + 2) = of_int (4 * K) * u"
    using powi_split [of e 2] p52 by simp
  from floorLog2_bounds [OF assms]
  have lo: "2 powi floorLog2 a \<le> a" and hi: "a < 2 powi (floorLog2 a + 1)" by auto
  have "(2::rat) powi (floorLog2 a + 1) \<le> 2 powi (e + 1)"
    using fle by (intro power_int_increasing) auto
  with hi have "a < of_int (2 * K) * u" unfolding p53 by linarith
  then have "a / u \<le> of_int (2 * K)"
    using u0 by (simp add: pos_divide_le_eq)
  then have n53: "n \<le> 2 * K"
    unfolding n_def by (rule roundTiesToEven_upper)
  have "of_int 0 \<le> a / u" using assms u0 by simp
  then have n0: "0 \<le> n"
    unfolding n_def by (rule roundTiesToEven_lower)
  have yu: "y / u = of_int n" using u0 by (simp add: y_def)
  have same: "roundMagnitude y = y" if e': "max (floorLog2 y) (- 1022) = e"
  proof -
    have "roundMagnitude y = of_int (roundTiesToEven (y / u)) * u"
      unfolding roundMagnitude_def Let_def e' u_def ..
    then have "roundMagnitude y = of_int n * u"
      by (simp only: yu roundTiesToEven_of_int)
    then show ?thesis
      by (simp only: y_def)
  qed
  consider "n = 0" | "n = 2 * K" | "K \<le> n" "n < 2 * K" | "0 < n" "n < K"
    using n0 n53 by linarith
  then have "roundMagnitude y = y"
  proof cases
    case 1
    then show ?thesis by (simp add: y_def roundMagnitude_0)
  next
    case 2
    then have y2: "y = 2 powi (e + 1)" by (simp only: y_def p53)
    have "(2::rat) powi (e + 1) < 2 powi (e + 1 + 1)"
      by (intro power_int_strict_increasing) auto
    then have "floorLog2 y = e + 1"
      unfolding y2 by (intro floorLog2_eqI) auto
    then have m: "max (floorLog2 y) (- 1022) = e + 1"
      using e1022 by simp
    define u2 :: rat where "u2 = 2 powi (e + 1 - 52)"
    have u20: "0 < u2" by (simp add: u2_def)
    have "(2::rat) powi (e + 1 - 52 + 52) = 2 powi 52 * 2 powi (e + 1 - 52)"
      by (rule powi_split)
    moreover have "e + 1 - 52 + 52 = e + 1" by simp
    ultimately have "(2::rat) powi (e + 1) = 2 powi 52 * u2"
      by (simp only: u2_def)
    then have q: "y = of_int K * u2" by (simp only: y2 K)
    then have d: "y / u2 = of_int K" using u20 by simp
    have "roundMagnitude y = of_int (roundTiesToEven (y / u2)) * u2"
      unfolding roundMagnitude_def Let_def m u2_def ..
    then have "roundMagnitude y = of_int K * u2"
      by (simp only: d roundTiesToEven_of_int)
    then show ?thesis by (simp only: q)
  next
    case 3
    have "of_int K * u \<le> of_int n * u"
      using 3(1) u0 by simp
    then have l: "2 powi e \<le> y" by (simp only: p52 y_def)
    have "of_int n * u < of_int (2 * K) * u"
      using 3(2) u0 by (simp del: of_int_mult of_int_numeral)
    then have h: "y < 2 powi (e + 1)" by (simp only: p53 y_def)
    from l h have "floorLog2 y = e" by (rule floorLog2_eqI)
    then have "max (floorLog2 y) (- 1022) = e" using e1022 by simp
    then show ?thesis by (rule same)
  next
    case 4
    have fl: "floorLog2 a < - 1022"
    proof (rule ccontr)
      assume "\<not> floorLog2 a < - 1022"
      then have "e = floorLog2 a" by (simp add: e_def)
      with lo have "of_int K * u \<le> a" by (simp only: p52 [symmetric])
      then have "of_int K \<le> a / u" using u0 by (simp add: pos_le_divide_eq)
      then have "K \<le> n" unfolding n_def by (rule roundTiesToEven_lower)
      with 4(2) show False by simp
    qed
    then have e: "e = - 1022" by (simp add: e_def)
    have y0: "0 < y" using 4(1) u0 by (simp add: y_def)
    have "of_int n * u < of_int K * u"
      using 4(2) u0 by simp
    then have "y < 2 powi e" by (simp only: p52 y_def)
    moreover from floorLog2_bounds [OF y0] have "2 powi floorLog2 y \<le> y" by simp
    ultimately have "(2::rat) powi floorLog2 y < 2 powi e" by linarith
    then have "floorLog2 y < e" by (rule powi_less_cancel)
    then have "max (floorLog2 y) (- 1022) = e" using e by simp
    then show ?thesis by (rule same)
  qed
  then show ?thesis by (simp only: y)
qed

lemma toDouble_idem:
  assumes "toDouble x = Finite y"
  shows "toDouble y = Finite y"
proof (cases "roundMagnitude \<bar>x\<bar> = 0 \<or> x = 0")
  case True
  then have "roundMagnitude \<bar>x\<bar> = 0" by (auto simp: roundMagnitude_0)
  with assms have "y = 0"
    by (auto simp: toDouble_def Let_def signedZero_def signedInfinity_def split: if_splits)
  then show ?thesis
    by (simp add: toDouble_def Let_def signedZero_def roundMagnitude_0)
next
  case False
  define r where "r = roundMagnitude \<bar>x\<bar>"
  from False have x: "0 < \<bar>x\<bar>" and r0: "r \<noteq> 0" by (auto simp: r_def)
  have idem: "roundMagnitude r = r"
    unfolding r_def using x by (rule roundMagnitude_idem)
  from assms r0 have small: "\<not> 2 powi 1024 \<le> r" and yr: "y = (if x < 0 then - r else r)"
    by (auto simp: toDouble_def Let_def r_def signedZero_def signedInfinity_def split: if_splits)
  have "0 \<le> r"
    unfolding r_def roundMagnitude_def Let_def
    using x by (intro mult_nonneg_nonneg) (auto intro!: roundTiesToEven_lower [of 0, simplified])
  with r0 have rpos: "0 < r" by simp
  have ay: "\<bar>y\<bar> = r" and sy: "(y < 0) = (x < 0)"
    using rpos by (auto simp: yr)
  show ?thesis
    unfolding toDouble_def Let_def ay idem
    using small r0 sy yr by simp
qed

lemma results_are_doubles:
  "jsAdd a b = Finite q \<Longrightarrow> toDouble q = Finite q"
  "jsDivide a b = Finite q \<Longrightarrow> toDouble q = Finite q"
  "fromLength k = Finite q \<Longrightarrow> toDouble q = Finite q"
proof -
  have z: "toDouble 0 = Finite 0"
    by (simp add: toDouble_def Let_def signedZero_def roundMagnitude_0)
  show "jsAdd a b = Finite q \<Longrightarrow> toDouble q = Finite q"
    by (cases a; cases b)
       (auto simp: jsAdd_def z split: if_splits intro: toDouble_idem)
  show "jsDivide a b = Finite q \<Longrightarrow> toDouble q = Finite q"
    by (cases a; cases b)
       (auto simp: jsDivide_def signedZero_def signedInfinity_def z split: if_splits
             intro: toDouble_idem)
  show "fromLength k = Finite q \<Longrightarrow> toDouble q = Finite q"
    by (auto simp: fromLength_def z split: if_splits intro: toDouble_idem)
qed

text \<open>A left fold of \<^verbatim>\<open>+\<close> over non-negative integers is exact below \<open>2^53\<close>.\<close>

lemma foldl_jsAdd_integers:
  assumes "\<forall>k\<in>set ks. 0 \<le> k" and "0 \<le> a" and "a + sum_list ks < 2 ^ 53"
  shows "foldl jsAdd (Finite (of_int a)) (map (\<lambda>k. Finite (of_int k)) ks)
           = Finite (of_int (a + sum_list ks))"
  using assms
proof (induction ks arbitrary: a)
  case Nil
  then show ?case by simp
next
  case (Cons k ks)
  have nn: "0 \<le> sum_list ks"
    using Cons.prems(1) by (simp add: sum_list_nonneg)
  have k0: "0 \<le> k" using Cons.prems(1) by simp
  have "\<bar>a + k\<bar> < 2 ^ 53"
    using Cons.prems(2,3) nn k0 by simp
  then have step: "jsAdd (Finite (of_int a)) (Finite (of_int k)) = Finite (of_int (a + k))"
    by (rule jsAdd_of_int)
  have "foldl jsAdd (Finite (of_int (a + k))) (map (\<lambda>k. Finite (of_int k)) ks)
          = Finite (of_int (a + k + sum_list ks))"
    using Cons.prems k0 by (intro Cons.IH) (simp_all add: add.assoc)
  then show ?case
    by (simp add: step add.assoc)
qed

text \<open>
  \<^verbatim>\<open>===\<close> is symmetric and transitive, so \<^verbatim>\<open>every(v => v === xs[0])\<close> says that
  the elements are equal to one another.
\<close>

lemma strictEquals_Finite [simp]: "strictEquals (Finite a) (Finite b) = (a = b)"
  by (auto simp: strictEquals_def)

lemma strictEquals_common:
  "strictEquals x h \<Longrightarrow> strictEquals y h \<Longrightarrow> strictEquals x y"
  by (auto simp: strictEquals_def)

lemma agreement_all_equal:
  "list_all (\<lambda>v. strictEquals v (hd xs)) xs
     = (\<forall>x\<in>set xs. \<forall>y\<in>set xs. strictEquals x y)"
proof (cases xs)
  case Nil
  then show ?thesis by simp
next
  case (Cons h t)
  have "(\<forall>v\<in>set (h # t). strictEquals v h)
          = (\<forall>x\<in>set (h # t). \<forall>y\<in>set (h # t). strictEquals x y)"
    by (meson list.set_intros(1) strictEquals_common)
  with Cons show ?thesis by (simp add: list_all_iff)
qed

text \<open>
  \<^verbatim>\<open>Object.values\<close>: the values are those of the object's entries, each once; with no
  array-index key they come in creation order.
\<close>

lemma set_objectValues: "set (objectValues obj) = snd ` set obj"
proof -
  have "set (objectValues obj) =
          snd ` ({e \<in> set obj. arrayIndex (fst e) \<noteq> None} \<union> {e \<in> set obj. arrayIndex (fst e) = None})"
    by (simp add: objectValues_def image_Un)
  also have "{e \<in> set obj. arrayIndex (fst e) \<noteq> None} \<union> {e \<in> set obj. arrayIndex (fst e) = None}
               = set obj"
    by auto
  finally show ?thesis .
qed

lemma length_objectValues: "length (objectValues obj) = length obj"
  using sum_length_filter_compl [of "\<lambda>e. arrayIndex (fst e) \<noteq> None" obj]
  by (simp add: objectValues_def)

lemma objectValues_plain:
  assumes "\<forall>e\<in>set obj. arrayIndex (fst e) = None"
  shows "objectValues obj = map snd obj"
proof -
  have "filter (\<lambda>e. arrayIndex (fst e) \<noteq> None) obj = []"
    using assms by (simp add: filter_empty_conv)
  moreover have "filter (\<lambda>e. arrayIndex (fst e) = None) obj = obj"
    using assms by (simp add: filter_id_conv)
  ultimately show ?thesis by (simp add: objectValues_def)
qed

lemma objectValues_example:
  "objectValues [(''b'', 5), (''10'', 3), (''2'', 7), (''01'', 1 :: nat)] = [7, 3, 5, 1]"
  by (simp add: objectValues_def arrayIndex_def digitValue_def indexRank_def)

lemma set_numbersOf: "set (numbersOf vs) = {n. NumberV n \<in> set vs}"
  by (induction vs rule: numbersOf.induct) auto

lemma numericVotesOf_empty_iff:
  "numericVotesOf obj = [] \<longleftrightarrow> (\<forall>k n. (k, NumberV n) \<notin> set obj)"
proof -
  have "numericVotesOf obj = [] \<longleftrightarrow> set (numericVotesOf obj) = {}" by simp
  also have "\<dots> \<longleftrightarrow> (\<forall>k n. (k, NumberV n) \<notin> set obj)"
    by (force simp: numericVotesOf_def set_numbersOf set_objectValues)
  finally show ?thesis .
qed

lemma objectSet_conv:
  "map_of (objectSet k v obj) = (if k = ''__proto__'' then map_of obj else (map_of obj)(k \<mapsto> v))"
  by (simp add: objectSet_def update_conv')

text \<open>The statistics of \<^verbatim>\<open>revealVotes\<close>.\<close>

lemma revealRound_fields:
  "isRevealed (revealRound now r) = True"
  "endTime (revealRound now r) = Some now"
  "votes (revealRound now r) = votes r"
  "r_id (revealRound now r) = r_id r"
  "issueName (revealRound now r) = issueName r"
  "startTime (revealRound now r) = startTime r"
  by (simp_all add: revealRound_def Let_def)

lemma revealRound_stats:
  "average (revealRound now r) =
     (if numericVotesOf (votes r) = [] then average r
      else Some (jsDivide (foldl jsAdd (Finite 0) (numericVotesOf (votes r)))
                          (fromLength (length (numericVotesOf (votes r))))))"
  "hasAgreement (revealRound now r) =
     (if numericVotesOf (votes r) = [] then hasAgreement r
      else Some (list_all (\<lambda>v. strictEquals v (hd (numericVotesOf (votes r))))
                          (numericVotesOf (votes r))))"
  by (simp_all add: revealRound_def Let_def)

text \<open>
  On non-negative integer votes whose sum stays below \<open>2^53\<close> the average is the
  arithmetic mean, rounded once.
\<close>

lemma average_of_integer_votes:
  assumes "numericVotesOf (votes r) = map (\<lambda>k. Finite (of_int k)) ks" and "ks \<noteq> []"
      and "\<forall>k\<in>set ks. 0 \<le> k" and "sum_list ks < 2 ^ 53" and "length ks < 2 ^ 53"
  shows "average (revealRound now r)
           = Some (toDouble (of_int (sum_list ks) / of_nat (length ks)))"
proof -
  have s: "foldl jsAdd (Finite 0) (map (\<lambda>k. Finite (of_int k)) ks) = Finite (of_int (sum_list ks))"
    using foldl_jsAdd_integers [OF assms(3), of 0] assms(4) by simp
  have l: "fromLength (length ks) = Finite (of_nat (length ks))"
    using assms(5) by (rule fromLength_exact)
  have n: "length ks \<noteq> 0" using assms(2) by simp
  have "jsDivide (Finite (of_int (sum_list ks))) (Finite (of_nat (length ks)))
          = toDouble (of_int (sum_list ks) / of_nat (length ks))"
    using n by (simp add: jsDivide_def signedZero_def toDouble_0)
  then show ?thesis
    using assms(2) by (simp add: revealRound_stats assms(1) s l)
qed



text \<open>
  The statistics of the example rounds. On integer votes the sum is exact, so the average
  is the mean rounded to a double: \<open>(3 + 5 + 3) / 3\<close> gives
  \<^verbatim>\<open>3.6666666666666665\<close>. Two votes of \<open>2^1023\<close> have the sum
  \<^verbatim>\<open>Infinity\<close> and so the average \<^verbatim>\<open>Infinity\<close>. A vote under the key
  \<^verbatim>\<open>"0"\<close> is listed first by \<^verbatim>\<open>Object.values\<close>, so it is the one the others
  are compared with.
\<close>

lemmas evalVotes = numericVotesOf_def objectValues_def arrayIndex_def digitValue_def
  indexRank_def

lemmas evalNumber = jsAdd_def jsDivide_def fromLength_def strictEquals_def toDouble_numeral
  toDouble_1

lemma reveal_examples:
  "average (revealRound 9 (emptyRound\<lparr>votes :=
      [(''A'', NumberV (Finite 3)), (''B'', NumberV (Finite 5)), (''C'', NumberV (Finite 3))]\<rparr>))
     = Some (Finite (8256599316845909 / 2 ^ 51))"
  "hasAgreement (revealRound 9 (emptyRound\<lparr>votes :=
      [(''A'', NumberV (Finite 3)), (''B'', NumberV (Finite 5)), (''C'', NumberV (Finite 3))]\<rparr>))
     = Some False"
  "average (revealRound 9 (emptyRound\<lparr>votes :=
      [(''A'', NumberV (Finite 5)), (''B'', NumberV (Finite 5))]\<rparr>)) = Some (Finite 5)"
  "hasAgreement (revealRound 9 (emptyRound\<lparr>votes :=
      [(''A'', NumberV (Finite 5)), (''B'', NumberV (Finite 5))]\<rparr>)) = Some True"
  "average (revealRound 9 (emptyRound\<lparr>votes :=
      [(''A'', StringV ''?''), (''B'', NumberV (Finite 5))]\<rparr>)) = Some (Finite 5)"
  "hasAgreement (revealRound 9 (emptyRound\<lparr>votes :=
      [(''A'', StringV ''?''), (''B'', NumberV (Finite 5))]\<rparr>)) = Some True"
  by (simp_all add: revealRound_stats evalVotes evalNumber toDouble_11_3)

lemma reveal_overflow_example:
  "average (revealRound 9 (emptyRound\<lparr>votes :=
      [(''A'', NumberV (Finite (2 ^ 1023))), (''B'', NumberV (Finite (2 ^ 1023)))]\<rparr>))
     = Some PosInfinity"
proof -
  have "(2::rat) ^ 1023 + 2 ^ 1023 = 2 ^ 1024" by simp
  then have "jsAdd (Finite (2 ^ 1023)) (Finite (2 ^ 1023)) = PosInfinity"
    by (simp add: jsAdd_def toDouble_overflow del: power_numeral)
  moreover have "jsAdd (Finite 0) (Finite (2 ^ 1023)) = Finite (2 ^ 1023)"
    using toDouble_eqI [of 1023 "2 ^ 1023" "2 ^ 52"] by (simp add: jsAdd_def)
  moreover have "toDouble 2 = Finite 2"
    by (simp add: toDouble_numeral)
  ultimately show ?thesis
    by (simp add: revealRound_stats evalVotes jsDivide_def fromLength_def signedInfinity_def
          del: power_numeral)
qed

lemma reveal_index_key_example:
  "numericVotesOf [(''b'', NumberV (Finite 5)), (''0'', NumberV (Finite 3))] = [Finite 3, Finite 5]"
  by (simp add: evalVotes)

text \<open>The example states are the ones the operations produce.\<close>

lemma lobby_reachable:
  "snd (addPlayerToSession 1 ''s1'' bob
          (snd (createSession ''s1'' 0 ''Sprint 4'' ''a'' ''Alice'' [])))
     = [(''s1'', lobby)]"
  by (simp add: lobby_def alice_def bob_def defaultSettings_def createSession_def
        addPlayerToSession_def findIndex_def Let_def)

lemma voting_reachable:
  "snd (updatePlayerVote 4 ''s1'' ''b'' (NumberV (Finite 5))
          (snd (updatePlayerVote 3 ''s1'' ''a'' (NumberV (Finite 3))
                  (snd (startVoting ''r1'' 2 ''s1'' (Some ''Login bug'') [(''s1'', lobby)])))))
     = [(''s1'', voting)]"
  by (simp add: voting_def openRound_def lobby_def alice_def bob_def startVoting_def
        updatePlayerVote_def objectSet_def shareVotes_def Let_def)

lemma revealed_reachable:
  "revealVotes 5 ''s1'' [(''s1'', voting)] = (True, [(''s1'', revealed)])"
  by (simp add: revealed_def closedRound_def voting_def openRound_def lobby_def revealVotes_def
        revealRound_def evalVotes evalNumber Let_def)

lemma started_reachable:
  "snd (startVoting ''r1'' 2 ''s1'' None [(''s1'', lobby)]) = [(''s1'', started)]"
  by (simp add: started_def emptyRound_def lobby_def alice_def bob_def startVoting_def Let_def)

lemma stale_reachable:
  "snd (updatePlayerVote 5 ''s1'' ''a'' (StringV ''?'')
          (snd (revealVotes 4 ''s1''
             (snd (updatePlayerVote 3 ''s1'' ''a'' (NumberV (Finite 5)) [(''s1'', started)])))))
     = [(''s1'', stale)]"
  by (simp add: stale_def staleRound_def started_def emptyRound_def lobby_def alice_def bob_def
        updatePlayerVote_def objectSet_def revealVotes_def revealRound_def evalVotes evalNumber
        shareVotes_def Let_def)


text \<open>What one call of \<^verbatim>\<open>revealVotes\<close> does to a session with a current round.\<close>

lemma revealVotes_effect:
  assumes "getSession sid sessions = Some s" and "currentVote s = Some r"
  shows "fst (revealVotes now sid sessions) = True \<and>
    (\<exists>s' r'. getSession sid (snd (revealVotes now sid sessions)) = Some s' \<and>
       currentVote s' = Some r' \<and> isRevealed r' = True \<and> endTime r' = Some now \<and>
       votes r' = votes r \<and> history s' = history s @ [r'] \<and> lastActivity s' = now \<and>
       (if numericVotesOf (votes r) = []
        then average r' = average r \<and> hasAgreement r' = hasAgreement r
        else average r' = Some (jsDivide (foldl jsAdd (Finite 0) (numericVotesOf (votes r)))
                                         (fromLength (length (numericVotesOf (votes r))))) \<and>
             hasAgreement r' = Some (\<forall>x\<in>set (numericVotesOf (votes r)).
                                       \<forall>y\<in>set (numericVotesOf (votes r)). strictEquals x y)))"
  using assms
  by (simp add: revealVotes_def getSession_def update_conv' Let_def revealRound_fields
        revealRound_stats agreement_all_equal)








lemma removePlayerFromSession_step:
  assumes "getSession sid sessions = Some s"
  shows "\<exists>s'. removePlayerFromSession now sid pid sessions = (True, AList.update sid s' sessions) \<and>
           players s' = filter (\<lambda>p. p_id p \<noteq> pid) (players s) \<and>
           lastActivity s' = now \<and>
           currentVote s' =
             (case currentVote s of
                None \<Rightarrow> None
              | Some cv \<Rightarrow>
                 (case map_of (votes cv) pid of
                    None \<Rightarrow> Some cv
                  | Some v \<Rightarrow> if truthy v then Some (cv\<lparr>votes := AList.delete pid (votes cv)\<rparr>)
                              else Some cv))"
  using assms
  by (auto simp: removePlayerFromSession_def getSession_def Let_def split: option.splits)

text \<open>
  \<^verbatim>\<open>cleanupInactiveSessions\<close>: the loop deletes the keys of the inactive entries it
  visits; on a Map, whose keys are distinct, that removes exactly the inactive entries.
\<close>

lemma delete_filter: "AList.delete k m = filter (\<lambda>e. fst e \<noteq> k) m"
  by (induction m) auto

lemma cleanupLoop_eq:
  "cleanupLoop now maxAge entries sessions cleaned =
     (cleaned + length (filter (\<lambda>e. inactive now maxAge (snd e)) entries),
      filter (\<lambda>e. fst e \<notin> fst ` set (filter (\<lambda>e. inactive now maxAge (snd e)) entries)) sessions)"
proof (induction entries arbitrary: sessions cleaned)
  case Nil
  then show ?case by simp
next
  case (Cons e entries)
  obtain k s where e: "e = (k, s)" by (cases e)
  show ?case
  proof (cases "inactive now maxAge s")
    case True
    then have "now - lastActivity s > maxAge" by (simp add: inactive_def)
    then show ?thesis
      using True by (simp add: e Cons.IH delete_filter conj_commute)
  next
    case False
    then have "\<not> now - lastActivity s > maxAge" by (simp add: inactive_def)
    then show ?thesis
      using False by (simp add: e Cons.IH)
  qed
qed

lemma distinct_keys_filter:
  assumes "distinct (map fst m)"
  shows "filter (\<lambda>e. fst e \<notin> fst ` set (filter (\<lambda>e. P (snd e)) m)) m = filter (\<lambda>e. \<not> P (snd e)) m"
proof (rule filter_cong [OF refl])
  fix e assume e: "e \<in> set m"
  have "fst e \<in> fst ` set (filter (\<lambda>e. P (snd e)) m) \<longleftrightarrow> P (snd e)"
  proof
    assume "fst e \<in> fst ` set (filter (\<lambda>e. P (snd e)) m)"
    then obtain e' where e': "e' \<in> set m" "P (snd e')" "fst e' = fst e" by auto
    with assms e have "e' = e" by (metis eq_key_imp_eq_value prod.collapse)
    with e' show "P (snd e)" by simp
  next
    assume "P (snd e)"
    with e show "fst e \<in> fst ` set (filter (\<lambda>e. P (snd e)) m)" by auto
  qed
  then show "(fst e \<notin> fst ` set (filter (\<lambda>e. P (snd e)) m)) = (\<not> P (snd e))" by simp
qed

lemma cleanupInactiveSessions_eq:
  assumes "distinct (map fst sessions)"
  shows "cleanupInactiveSessions now maxAge sessions =
     (length (filter (\<lambda>e. inactive now maxAge (snd e)) sessions),
      filter (\<lambda>e. \<not> inactive now maxAge (snd e)) sessions)"
  unfolding cleanupInactiveSessions_def cleanupLoop_eq
  using distinct_keys_filter [OF assms, of "inactive now maxAge"] by simp

lemma map_of_filter_distinct:
  assumes "distinct (map fst m)"
  shows "map_of (filter (\<lambda>e. Q (snd e)) m) k =
           (case map_of m k of None \<Rightarrow> None | Some v \<Rightarrow> if Q v then Some v else None)"
  using assms
proof (induction m)
  case Nil
  then show ?case by simp
next
  case (Cons e m)
  obtain k' v' where e: "e = (k', v')" by (cases e)
  from Cons.prems e have notin: "k' \<notin> fst ` set m" and d: "distinct (map fst m)" by auto
  from notin have none: "map_of m k' = None" by (simp add: map_of_eq_None_iff)
  show ?case
    using Cons.IH [OF d] none by (auto simp: e split: option.splits)
qed

text \<open>Every operation of the registry keeps the keys of the Map distinct.\<close>

lemma distinct_keys_preserved:
  assumes "distinct (map fst sessions)"
  shows "distinct (map fst (snd (createSession newId now nm fid fname sessions)))"
    and "distinct (map fst (snd (addPlayerToSession now sid player sessions)))"
    and "distinct (map fst (snd (removePlayerFromSession now sid pid sessions)))"
    and "distinct (map fst (snd (updatePlayerVote now sid pid v sessions)))"
    and "distinct (map fst (snd (startVoting newId now sid issue sessions)))"
    and "distinct (map fst (snd (revealVotes now sid sessions)))"
    and "distinct (map fst (snd (updateSessionSettings now sid patch fac nm' vsys sessions)))"
    and "distinct (map fst (snd (cleanupInactiveSessions now maxAge sessions)))"
  using assms
  by (simp_all add: createSession_def addPlayerToSession_def removePlayerFromSession_def
        updatePlayerVote_def startVoting_def revealVotes_def updateSessionSettings_def
        cleanupInactiveSessions_eq Let_def distinct_update distinct_map_filter
        split: option.splits)

text \<open>The server: what a broadcast sends, and to whom.\<close>

lemma send_fields [simp]:
  "sessionManager (send sock m srv) = sessionManager srv"
  "playerManager (send sock m srv) = playerManager srv"
  "readyState (send sock m srv) = readyState srv"
  "sent (send sock m srv) w = (if w = sock then sent srv w @ [m] else sent srv w)"
  by (simp_all add: send_def)

lemma broadcast_fold:
  "sessionManager (foldl (\<lambda>srv' player.
             if excluded ex player (playerManager srv') then srv'
             else if readyState srv' (ws player) = OPEN then send (ws player) msg srv'
             else srv') srv cs) = sessionManager srv \<and>
   playerManager (foldl (\<lambda>srv' player.
             if excluded ex player (playerManager srv') then srv'
             else if readyState srv' (ws player) = OPEN then send (ws player) msg srv'
             else srv') srv cs) = playerManager srv \<and>
   readyState (foldl (\<lambda>srv' player.
             if excluded ex player (playerManager srv') then srv'
             else if readyState srv' (ws player) = OPEN then send (ws player) msg srv'
             else srv') srv cs) = readyState srv \<and>
   sent (foldl (\<lambda>srv' player.
             if excluded ex player (playerManager srv') then srv'
             else if readyState srv' (ws player) = OPEN then send (ws player) msg srv'
             else srv') srv cs) w =
     sent srv w @ replicate (length (filter (\<lambda>p. ws p = w \<and> \<not> excluded ex p (playerManager srv)
                                                \<and> readyState srv w = OPEN) cs)) msg"
proof (induction cs arbitrary: srv)
  case Nil
  then show ?case by simp
next
  case (Cons c cs)
  show ?case
    by (simp add: Cons.IH replicate_app_Cons_same)
qed

lemma broadcastToSession_fields [simp]:
  "sessionManager (broadcastToSession sid msg ex srv) = sessionManager srv"
  "playerManager (broadcastToSession sid msg ex srv) = playerManager srv"
  "readyState (broadcastToSession sid msg ex srv) = readyState srv"
  by (simp_all add: broadcastToSession_def broadcast_fold)

lemma broadcastToSession_sent:
  "sent (broadcastToSession sid msg ex srv) w =
     sent srv w @ replicate (length (filter (\<lambda>p. ws p = w \<and> \<not> excluded ex p (playerManager srv)
                                                \<and> readyState srv w = OPEN)
                                       (getConnectionsBySession sid (playerManager srv)))) msg"
  by (simp add: broadcastToSession_def broadcast_fold)

lemma filter_ws_distinct:
  assumes "distinct (map ws cs)" and "p \<in> set cs"
  shows "filter (\<lambda>q. ws q = ws p) cs = [p]"
  using assms
proof (induction cs)
  case Nil
  then show ?case by simp
next
  case (Cons c cs)
  show ?case
  proof (cases "c = p")
    case True
    with Cons.prems have "\<forall>q\<in>set cs. ws q \<noteq> ws p" by (auto simp: image_iff)
    then have "filter (\<lambda>q. ws q = ws p) cs = []" by (simp add: filter_empty_conv)
    with True show ?thesis by simp
  next
    case False
    with Cons.prems have p: "p \<in> set cs" and d: "distinct (map ws cs)" by auto
    from Cons.prems p have "ws c \<noteq> ws p" by (auto simp: image_iff)
    with Cons.IH [OF d p] show ?thesis by simp
  qed
qed

lemma distinct_session_sockets:
  assumes "distinct (map (ws \<circ> snd) (connections pm))"
  shows "distinct (map ws (getConnectionsBySession sid pm))"
  using assms by (simp add: getConnectionsBySession_def distinct_map_filter)

lemma excluded_None [simp]: "excluded None p pm = False"
  by (simp add: excluded_def)

lemma broadcastToSession_sent_all:
  "sent (broadcastToSession sid msg None srv) w =
     sent srv w @
       (if readyState srv w = OPEN
        then replicate (length (filter (\<lambda>p. ws p = w)
                                  (getConnectionsBySession sid (playerManager srv)))) msg
        else [])"
  by (simp add: broadcastToSession_sent)

lemma handleSyncEvent_step:
  assumes "getConnection cid (playerManager srv) = Some sender" and "m_event message = Some ev"
  shows "handleSyncEvent newId now cid message srv =
           broadcastToSession (sessionId sender) (syncNotice ev now) None
             (srv\<lparr>sessionManager := applyEvent newId now (sessionId sender) ev (sessionManager srv)\<rparr>)"
  using assms by (simp add: handleSyncEvent_def syncNotice_def)

lemma getConnection_in_session:
  assumes "getConnection cid pm = Some p"
  shows "p \<in> set (getConnectionsBySession (sessionId p) pm)"
  using assms map_of_SomeD [of "connections pm" cid p]
  by (force simp: getConnection_def getConnectionsBySession_def)

text \<open>
  Each socket is registered under the connection id drawn for it when it was accepted
  (\<open>sockOf\<close>, one id per socket), so the sockets of the registry are distinct.
\<close>

lemma set_update_subset: "set (AList.update k v al) \<subseteq> insert (k, v) (set al)"
  by (induction al) auto

lemma sockets_distinct:
  assumes "distinct (map fst cs)" and "inj sockOf"
      and "\<forall>e\<in>set cs. ws (snd e) = sockOf (fst e)"
  shows "distinct (map (ws \<circ> snd) cs)"
proof -
  have eq: "map (ws \<circ> snd) cs = map sockOf (map fst cs)"
    using assms(3) by (induction cs) simp_all
  have "inj_on sockOf (set (map fst cs))"
    using assms(2) by (rule inj_on_subset) simp
  with assms(1) have "distinct (map sockOf (map fst cs))"
    by (simp only: distinct_map)
  then show ?thesis unfolding eq .
qed

lemma addConnection_keeps_sockets:
  assumes "distinct (map fst (connections pm))"
      and "\<forall>e\<in>set (connections pm). ws (snd e) = sockOf (fst e)"
  shows "distinct (map fst (connections (addConnection now cid (sockOf cid) sid uid uname pm))) \<and>
         (\<forall>e\<in>set (connections (addConnection now cid (sockOf cid) sid uid uname pm)).
             ws (snd e) = sockOf (fst e))"
  using assms
    set_update_subset [of cid "\<lparr> ws = sockOf cid, sessionId = sid, userId = uid, userName = uname,
                                 lastHeartbeat = now \<rparr>" "connections pm"]
  by (auto simp: addConnection_def Let_def distinct_update)

lemma handleJoin_unknown_session:
  assumes "m_sessionId message = Some sid" and "m_userId message = Some uid"
      and "m_userName message = Some uname"
      and "sid \<noteq> []" and "uid \<noteq> []" and "uname \<noteq> []"
      and "getSession sid (sessionManager srv) = None"
  shows "handleJoin now cid sock message srv =
           sendSessionNotFound now sock ''Session not found''
             (srv\<lparr>playerManager := addConnection now cid sock sid uid uname (playerManager srv)\<rparr>)"
  using assms by (simp add: handleJoin_def Let_def)

lemma handleJoin_unknown_session_effects:
  assumes "m_sessionId message = Some sid" and "m_userId message = Some uid"
      and "m_userName message = Some uname"
      and "sid \<noteq> []" and "uid \<noteq> []" and "uname \<noteq> []"
      and "getSession sid (sessionManager srv) = None"
  shows "sent (handleJoin now cid sock message srv) sock = sent srv sock @ [sessionNotFound now]"
    and "w \<noteq> sock \<Longrightarrow> sent (handleJoin now cid sock message srv) w = sent srv w"
    and "sessionManager (handleJoin now cid sock message srv) = sessionManager srv"
    and "getConnection cid (playerManager (handleJoin now cid sock message srv)) =
           Some \<lparr> ws = sock, sessionId = sid, userId = uid, userName = uname,
                  lastHeartbeat = now \<rparr>"
  by (simp_all add: handleJoin_unknown_session [OF assms] sendSessionNotFound_def
        sessionNotFound_def addConnection_def getConnection_def update_conv' Let_def)

text \<open>
  The \<^verbatim>\<open>close\<close> handler and \<^verbatim>\<open>handleLeave\<close> pass the connection's participant to
  \<^verbatim>\<open>removePlayerFromSession\<close>.
\<close>

lemma disconnect_calls_removePlayerFromSession:
  assumes "getConnection cid (playerManager srv) = Some p"
  shows "sessionManager (onClose now cid srv) =
           snd (removePlayerFromSession now (sessionId p) (userId p) (sessionManager srv))"
    and "sessionManager (handleLeave now cid srv) =
           snd (removePlayerFromSession now (sessionId p) (userId p) (sessionManager srv))"
    and "getConnection cid (playerManager (onClose now cid srv)) = None"
  using assms
  by (simp_all add: onClose_def handleLeave_def disconnect_def removeConnection_def
        getConnection_def delete_conv')

section \<open>Claims\<close>




text \<open>
  C2 (as amended). For every existing session, \<^verbatim>\<open>removePlayerFromSession\<close> succeeds,
  removes every roster record with the given id (the other records stay, in order),
  refreshes last-activity, and keeps every other participant's vote in the current round;
  a vote of the removed participant that is a non-zero number or a non-empty string is
  deleted from the round's votes map.
\<close>

theorem removePlayerFromSession_removes:
  assumes "getSession sid sessions = Some s"
  shows "fst (removePlayerFromSession now sid pid sessions) = True \<and>
    (\<exists>s'. getSession sid (snd (removePlayerFromSession now sid pid sessions)) = Some s' \<and>
       players s' = filter (\<lambda>p. p_id p \<noteq> pid) (players s) \<and>
       (\<forall>p\<in>set (players s'). p_id p \<noteq> pid) \<and>
       lastActivity s' = now \<and>
       (case currentVote s of
          None \<Rightarrow> currentVote s' = None
        | Some r \<Rightarrow>
           (\<exists>r'. currentVote s' = Some r' \<and> r' = r\<lparr>votes := votes r'\<rparr> \<and>
              (\<forall>k. k \<noteq> pid \<longrightarrow> map_of (votes r') k = map_of (votes r) k) \<and>
              (\<forall>v. map_of (votes r) pid = Some v \<and> truthy v \<longrightarrow> map_of (votes r') pid = None))))"
proof -
  from removePlayerFromSession_step [OF assms, of now pid] obtain s' where
    st: "removePlayerFromSession now sid pid sessions = (True, AList.update sid s' sessions)" and
    pl: "players s' = filter (\<lambda>p. p_id p \<noteq> pid) (players s)" and
    la: "lastActivity s' = now" and
    cv: "currentVote s' =
           (case currentVote s of
              None \<Rightarrow> None
            | Some cv \<Rightarrow>
               (case map_of (votes cv) pid of
                  None \<Rightarrow> Some cv
                | Some v \<Rightarrow> if truthy v then Some (cv\<lparr>votes := AList.delete pid (votes cv)\<rparr>)
                            else Some cv))"
    by blast
  have g: "getSession sid (snd (removePlayerFromSession now sid pid sessions)) = Some s'"
    by (simp add: st getSession_def update_conv')
  have t: "fst (removePlayerFromSession now sid pid sessions) = True"
    by (simp add: st)
  have c: "case currentVote s of
          None \<Rightarrow> currentVote s' = None
        | Some r \<Rightarrow>
           (\<exists>r'. currentVote s' = Some r' \<and> r' = r\<lparr>votes := votes r'\<rparr> \<and>
              (\<forall>k. k \<noteq> pid \<longrightarrow> map_of (votes r') k = map_of (votes r) k) \<and>
              (\<forall>v. map_of (votes r) pid = Some v \<and> truthy v \<longrightarrow> map_of (votes r') pid = None))"
    using cv by (auto simp: delete_conv' split: option.splits)
  have n: "\<forall>p\<in>set (players s'). p_id p \<noteq> pid"
    by (simp add: pl)
  from t g pl n la c show ?thesis by blast
qed

theorem removePlayerFromSession_removes_witness:
  "getSession ''s1'' [(''s1'', voting)] = Some voting \<and>
   fst (removePlayerFromSession 6 ''s1'' ''b'' [(''s1'', voting)]) = True \<and>
   map_option (map p_id \<circ> players)
     (getSession ''s1'' (snd (removePlayerFromSession 6 ''s1'' ''b'' [(''s1'', voting)])))
     = Some [''a'']"
proof -
  have h: "getSession ''s1'' [(''s1'', voting)] = Some voting" by (simp add: getSession_def)
  from removePlayerFromSession_removes [OF h, of 6 "''b''"]
  have "fst (removePlayerFromSession 6 ''s1'' ''b'' [(''s1'', voting)]) = True \<and>
   map_option (map p_id \<circ> players)
     (getSession ''s1'' (snd (removePlayerFromSession 6 ''s1'' ''b'' [(''s1'', voting)])))
     = Some [''a'']"
    by (auto simp: voting_def alice_def bob_def)
  with h show ?thesis by blast
qed

text \<open>
  C2 as stated fails: after the call for Bob the roster no longer holds his record and the
  round no longer holds his vote.
\<close>

theorem removePlayerFromSession_drops_record_and_vote:
  "map_option (map p_id \<circ> players) (getSession ''s1'' [(''s1'', voting)]) = Some [''a'', ''b''] \<and>
   map_option (\<lambda>s. map_option votes (currentVote s)) (getSession ''s1'' [(''s1'', voting)])
     = Some (Some [(''a'', NumberV (Finite 3)), (''b'', NumberV (Finite 5))]) \<and>
   fst (removePlayerFromSession 6 ''s1'' ''b'' [(''s1'', voting)]) = True \<and>
   map_option (map p_id \<circ> players)
     (getSession ''s1'' (snd (removePlayerFromSession 6 ''s1'' ''b'' [(''s1'', voting)])))
     = Some [''a''] \<and>
   map_option (\<lambda>s. map_option votes (currentVote s))
     (getSession ''s1'' (snd (removePlayerFromSession 6 ''s1'' ''b'' [(''s1'', voting)])))
     = Some (Some [(''a'', NumberV (Finite 3))])"
  by (simp add: getSession_def removePlayerFromSession_def Let_def voting_def openRound_def
        lobby_def alice_def bob_def)

text \<open>
  C3. A join naming a session that does not exist is answered with the
  \<^verbatim>\<open>session_not_found\<close> frame on the joining socket and touches no session, but the
  Connection Registry keeps the entry \<^verbatim>\<open>handleJoin\<close> stored for the connection before
  looking the session up. Evaluated at the failing input:
\<close>

theorem handleJoin_unknown_session_stays_registered:
  "getSession ''nope'' (sessionManager serverIdle) = None \<and>
   getConnection ''c9'' (playerManager serverIdle) = None \<and>
   sent (handleJoin 7 ''c9'' 9 joinUnknown serverIdle) 9 = [sessionNotFound 7] \<and>
   sessionManager (handleJoin 7 ''c9'' 9 joinUnknown serverIdle) = sessionManager serverIdle \<and>
   getConnection ''c9'' (playerManager (handleJoin 7 ''c9'' 9 joinUnknown serverIdle)) =
     Some \<lparr> ws = 9, sessionId = ''nope'', userId = ''e'', userName = ''Eve'',
            lastHeartbeat = 7 \<rparr> \<and>
   getConnectionsBySession ''nope'' (playerManager (handleJoin 7 ''c9'' 9 joinUnknown serverIdle)) =
     [\<lparr> ws = 9, sessionId = ''nope'', userId = ''e'', userName = ''Eve'', lastHeartbeat = 7 \<rparr>]"
  by (simp add: handleJoin_def sendSessionNotFound_def sessionNotFound_def send_def
        addConnection_def getConnection_def getConnectionsBySession_def getSession_def
        serverIdle_def joinUnknown_def Let_def)

text \<open>A connection left registered this way is served like a joined one.\<close>

lemma unjoined_connection_is_served:
  "sent (handleSyncEvent ''r9'' 9 ''c9'' emojiMessage
           (handleJoin 7 ''c9'' 9 joinUnknown serverIdle)) 9
     = [sessionNotFound 7, syncNotice (EMOJI_SENT ''wave'') 9]"
  by (simp add: handleSyncEvent_def broadcastToSession_def handleJoin_def
        sendSessionNotFound_def sessionNotFound_def send_def syncNotice_def
        addConnection_def getConnection_def getConnectionsBySession_def getSession_def
        serverIdle_def joinUnknown_def emojiMessage_def excluded_def Let_def)




text \<open>
  C5. \<^verbatim>\<open>revealVotes\<close> assigns average and agreement only when the votes map holds a
  numeric vote, and never clears them. A round that was revealed with Alice's vote 5 and in
  which Alice then voted \<^verbatim>\<open>"?"\<close> holds no numeric vote; revealed again, it still has
  average 5 and agreement true, where the claim has both unset. Evaluated at the failing
  input, the calls that lead to it included:
\<close>

theorem revealVotes_stale_statistics:
  "snd (updatePlayerVote 5 ''s1'' ''a'' (StringV ''?'')
          (snd (revealVotes 4 ''s1''
             (snd (updatePlayerVote 3 ''s1'' ''a'' (NumberV (Finite 5)) [(''s1'', started)])))))
     = [(''s1'', stale)] \<and>
   getSession ''s1'' [(''s1'', stale)] = Some stale \<and>
   map_option votes (currentVote stale) = Some [(''a'', StringV ''?'')] \<and>
   map_option (numericVotesOf \<circ> votes) (currentVote stale) = Some [] \<and>
   fst (revealVotes 6 ''s1'' [(''s1'', stale)]) = True \<and>
   map_option average
     (Option.bind (getSession ''s1'' (snd (revealVotes 6 ''s1'' [(''s1'', stale)]))) currentVote)
     = Some (Some (Finite 5)) \<and>
   map_option hasAgreement
     (Option.bind (getSession ''s1'' (snd (revealVotes 6 ''s1'' [(''s1'', stale)]))) currentVote)
     = Some (Some True)"
proof -
  have "getSession ''s1'' [(''s1'', stale)] = Some stale"
    by (simp add: getSession_def)
  moreover have "map_option votes (currentVote stale) = Some [(''a'', StringV ''?'')]"
    by (simp add: stale_def staleRound_def)
  moreover have "map_option (numericVotesOf \<circ> votes) (currentVote stale) = Some []"
    by (simp add: stale_def staleRound_def evalVotes)
  moreover have "fst (revealVotes 6 ''s1'' [(''s1'', stale)]) = True"
    by (simp add: getSession_def stale_def revealVotes_def Let_def)
  moreover have "map_option average
     (Option.bind (getSession ''s1'' (snd (revealVotes 6 ''s1'' [(''s1'', stale)]))) currentVote)
     = Some (Some (Finite 5))"
    by (simp add: getSession_def stale_def staleRound_def revealVotes_def revealRound_def
          evalVotes Let_def)
  moreover have "map_option hasAgreement
     (Option.bind (getSession ''s1'' (snd (revealVotes 6 ''s1'' [(''s1'', stale)]))) currentVote)
     = Some (Some True)"
    by (simp add: getSession_def stale_def staleRound_def revealVotes_def revealRound_def
          evalVotes Let_def)
  ultimately show ?thesis
    using stale_reachable by blast
qed

text \<open>
  C6. For every existing session, \<^verbatim>\<open>startVoting\<close> replaces the current round with a fresh
  round whose votes map is empty and whose revealed flag is false, and clears \<^verbatim>\<open>vote\<close>
  and \<^verbatim>\<open>hasVoted\<close> on every participant of the roster (the roster itself keeps its
  participants, in order), so no vote recorded before the call appears in the new round.
  The call returns the new round.
\<close>

theorem startVoting_fresh_round:
  assumes "getSession sid sessions = Some s"
  shows "\<exists>r s'. fst (startVoting newId now sid issue sessions) = Some r \<and>
           getSession sid (snd (startVoting newId now sid issue sessions)) = Some s' \<and>
           currentVote s' = Some r \<and> votes r = [] \<and> isRevealed r = False \<and>
           map p_id (players s') = map p_id (players s) \<and>
           (\<forall>p\<in>set (players s'). vote p = None \<and> hasVoted p = Some False) \<and>
           (\<forall>pid. map_of (votes r) pid = None)"
  using assms
  by (auto simp: startVoting_def getSession_def Let_def update_conv' comp_def)

theorem startVoting_fresh_round_witness:
  "getSession ''s1'' [(''s1'', revealed)] = Some revealed \<and>
   map_option votes (fst (startVoting ''r2'' 6 ''s1'' None [(''s1'', revealed)])) = Some [] \<and>
   map_option (map vote \<circ> players)
     (getSession ''s1'' (snd (startVoting ''r2'' 6 ''s1'' None [(''s1'', revealed)])))
     = Some [None, None]"
proof -
  have h: "getSession ''s1'' [(''s1'', revealed)] = Some revealed"
    by (simp add: getSession_def)
  from startVoting_fresh_round [OF h, of "''r2''" 6 None]
  have a: "map_option votes (fst (startVoting ''r2'' 6 ''s1'' None [(''s1'', revealed)])) = Some []"
    by auto
  have b: "map_option (map vote \<circ> players)
     (getSession ''s1'' (snd (startVoting ''r2'' 6 ''s1'' None [(''s1'', revealed)])))
     = Some [None, None]"
    by (simp add: getSession_def startVoting_def Let_def revealed_def voting_def lobby_def)
  show ?thesis using h a b by blast
qed

text \<open>
  C7. For a session whose roster already holds a participant with the joining id,
  \<^verbatim>\<open>addPlayerToSession\<close> succeeds, replaces the first record with that id by the given
  record with \<^verbatim>\<open>isOnline\<close> forced to true, and leaves the roster's length unchanged; for an
  id that is not in the roster the record, again forced online, is appended. In both cases
  last-activity is set to the current time.
\<close>

theorem addPlayerToSession_replaces_or_appends:
  assumes "getSession sid sessions = Some s"
  shows "fst (addPlayerToSession now sid player sessions) = True \<and>
    (\<exists>s'. getSession sid (snd (addPlayerToSession now sid player sessions)) = Some s' \<and>
       lastActivity s' = now \<and>
       (if \<exists>p\<in>set (players s). p_id p = p_id player
        then length (players s') = length (players s) \<and>
             (\<exists>i < length (players s).
                 p_id (players s ! i) = p_id player \<and>
                 (\<forall>j<i. p_id (players s ! j) \<noteq> p_id player) \<and>
                 players s' = (players s)[i := player\<lparr>isOnline := Some True\<rparr>])
        else players s' = players s @ [player\<lparr>isOnline := Some True\<rparr>]))"
proof (cases "\<exists>p\<in>set (players s). p_id p = p_id player")
  case True
  let ?i = "length (takeWhile (\<lambda>p. p_id p \<noteq> p_id player) (players s))"
  have idx: "findIndex (\<lambda>p. p_id p = p_id player) (players s) = int ?i"
    using True by (simp add: findIndex_eq)
  have "?i < length (players s)"
    using takeWhile_first_length [of "players s" "\<lambda>p. p_id p = p_id player"] True by simp
  moreover have "p_id (players s ! ?i) = p_id player"
    using takeWhile_first_hit [of "players s" "\<lambda>p. p_id p = p_id player"] True by simp
  moreover have "\<forall>j < ?i. p_id (players s ! j) \<noteq> p_id player"
    using takeWhile_first_before [of _ "\<lambda>p. p_id p = p_id player" "players s"] by simp
  ultimately show ?thesis
    using assms True idx
    by (auto simp: addPlayerToSession_def getSession_def Let_def update_conv')
next
  case False
  then have idx: "findIndex (\<lambda>p. p_id p = p_id player) (players s) = -1"
    by (simp add: findIndex_eq)
  show ?thesis
    using assms False idx
    by (auto simp: addPlayerToSession_def getSession_def Let_def update_conv')
qed

theorem addPlayerToSession_replaces_or_appends_witness:
  "getSession ''s1'' [(''s1'', lobby)] = Some lobby \<and>
   fst (addPlayerToSession 7 ''s1'' (alice\<lparr>p_name := ''Alicia'', isOnline := Some False\<rparr>)
          [(''s1'', lobby)]) = True \<and>
   map_option players (getSession ''s1''
       (snd (addPlayerToSession 7 ''s1'' (alice\<lparr>p_name := ''Alicia'', isOnline := Some False\<rparr>)
               [(''s1'', lobby)])))
     = Some [alice\<lparr>p_name := ''Alicia''\<rparr>, bob] \<and>
   map_option players (getSession ''s1''
       (snd (addPlayerToSession 8 ''s1'' (bob\<lparr>p_id := ''c''\<rparr>) [(''s1'', lobby)])))
     = Some [alice, bob, bob\<lparr>p_id := ''c''\<rparr>]"
proof -
  have h: "getSession ''s1'' [(''s1'', lobby)] = Some lobby"
    by (simp add: getSession_def)
  from addPlayerToSession_replaces_or_appends
         [OF h, of 7 "alice\<lparr>p_name := ''Alicia'', isOnline := Some False\<rparr>"]
  have a: "fst (addPlayerToSession 7 ''s1''
                  (alice\<lparr>p_name := ''Alicia'', isOnline := Some False\<rparr>) [(''s1'', lobby)]) = True"
    by blast
  have b: "map_option players (getSession ''s1''
       (snd (addPlayerToSession 7 ''s1'' (alice\<lparr>p_name := ''Alicia'', isOnline := Some False\<rparr>)
               [(''s1'', lobby)])))
     = Some [alice\<lparr>p_name := ''Alicia''\<rparr>, bob]"
    by (simp add: getSession_def addPlayerToSession_def findIndex_def Let_def lobby_def
          alice_def bob_def)
  have c: "map_option players (getSession ''s1''
       (snd (addPlayerToSession 8 ''s1'' (bob\<lparr>p_id := ''c''\<rparr>) [(''s1'', lobby)])))
     = Some [alice, bob, bob\<lparr>p_id := ''c''\<rparr>]"
    by (simp add: getSession_def addPlayerToSession_def findIndex_def Let_def lobby_def
          alice_def bob_def)
  show ?thesis using h a b c by blast
qed

text \<open>
  C8. For every \<open>maxAge\<close>, \<^verbatim>\<open>cleanupInactiveSessions\<close> deletes exactly the sessions whose
  last-activity is older than \<open>now - maxAge\<close>, whatever their rosters hold, and returns
  their number; afterwards a lookup of a deleted session finds nothing and a lookup of any
  other session finds it unchanged. (The registry is a Map: its keys are distinct.)
\<close>

theorem cleanupInactiveSessions_deletes_exactly_inactive:
  assumes "distinct (map fst sessions)"
  shows "snd (cleanupInactiveSessions now maxAge sessions)
           = filter (\<lambda>e. \<not> lastActivity (snd e) < now - maxAge) sessions \<and>
         fst (cleanupInactiveSessions now maxAge sessions)
           = length (filter (\<lambda>e. lastActivity (snd e) < now - maxAge) sessions) \<and>
         fst (cleanupInactiveSessions now maxAge sessions)
           = length sessions - length (snd (cleanupInactiveSessions now maxAge sessions)) \<and>
         (\<forall>k. getSession k (snd (cleanupInactiveSessions now maxAge sessions)) =
            (case getSession k sessions of
               None \<Rightarrow> None
             | Some s \<Rightarrow> if lastActivity s < now - maxAge then None else Some s))"
proof -
  have i: "inactive now maxAge = (\<lambda>s. lastActivity s < now - maxAge)"
    by (auto simp: inactive_def fun_eq_iff)
  have l: "length (filter (\<lambda>e. lastActivity (snd e) < now - maxAge) sessions)
        = length sessions - length (filter (\<lambda>e. \<not> lastActivity (snd e) < now - maxAge) sessions)"
    using sum_length_filter_compl [of "\<lambda>e. lastActivity (snd e) < now - maxAge" sessions]
    by simp
  show ?thesis
    using l map_of_filter_distinct [OF assms, of "\<lambda>s. \<not> lastActivity s < now - maxAge"]
    by (auto simp: cleanupInactiveSessions_eq [OF assms] i getSession_def split: option.splits)
qed

theorem cleanupInactiveSessions_witness:
  "distinct (map fst [(''s0'', dormant), (''s1'', lobby)]) \<and>
   cleanupInactiveSessions 60000 900000 [(''s0'', dormant), (''s1'', lobby)] = (1, [(''s1'', lobby)]) \<and>
   getSession ''s0'' (snd (cleanupInactiveSessions 60000 900000 [(''s0'', dormant), (''s1'', lobby)])) = None \<and>
   getSession ''s1'' (snd (cleanupInactiveSessions 60000 900000 [(''s0'', dormant), (''s1'', lobby)])) = Some lobby"
proof -
  have d: "distinct (map fst [(''s0'', dormant), (''s1'', lobby)])" by simp
  have la: "lastActivity dormant = -900000" "lastActivity lobby = 1"
    by (simp_all add: dormant_def lobby_def)
  from cleanupInactiveSessions_deletes_exactly_inactive [OF d, of 60000 900000] la
  have "cleanupInactiveSessions 60000 900000 [(''s0'', dormant), (''s1'', lobby)] = (1, [(''s1'', lobby)])"
    by (simp add: prod_eq_iff)
  with d show ?thesis by (simp add: getSession_def)
qed

text \<open>
  C9 (as amended). When a registered connection submits a domain event, every connection
  registered for its session whose socket is open, the sender's included, is sent exactly
  one \<^verbatim>\<open>sync_event\<close> frame carrying the event; a registered connection whose socket is not
  open is sent nothing, and neither is any socket outside the session. (The sockets of the
  registry are distinct.)
\<close>

theorem handleSyncEvent_reaches_open_connections:
  assumes "getConnection cid (playerManager srv) = Some sender"
      and "m_event message = Some ev"
      and "distinct (map (ws \<circ> snd) (connections (playerManager srv)))"
  shows "sender \<in> set (getConnectionsBySession (sessionId sender) (playerManager srv)) \<and>
         playerManager (handleSyncEvent newId now cid message srv) = playerManager srv \<and>
         (\<forall>p\<in>set (getConnectionsBySession (sessionId sender) (playerManager srv)).
             sent (handleSyncEvent newId now cid message srv) (ws p) =
               sent srv (ws p) @
                 (if readyState srv (ws p) = OPEN then [syncNotice ev now] else [])) \<and>
         (\<forall>sock. sock \<notin> ws ` set (getConnectionsBySession (sessionId sender) (playerManager srv))
             \<longrightarrow> sent (handleSyncEvent newId now cid message srv) sock = sent srv sock)"
proof (intro conjI ballI allI impI)
  show "sender \<in> set (getConnectionsBySession (sessionId sender) (playerManager srv))"
    using assms(1) by (rule getConnection_in_session)
next
  show "playerManager (handleSyncEvent newId now cid message srv) = playerManager srv"
    by (simp add: handleSyncEvent_step [OF assms(1,2)])
next
  fix p
  assume p: "p \<in> set (getConnectionsBySession (sessionId sender) (playerManager srv))"
  have d: "distinct (map ws (getConnectionsBySession (sessionId sender) (playerManager srv)))"
    using assms(3) by (rule distinct_session_sockets)
  have f: "filter (\<lambda>q. ws q = ws p) (getConnectionsBySession (sessionId sender) (playerManager srv)) = [p]"
    using d p by (rule filter_ws_distinct)
  show "sent (handleSyncEvent newId now cid message srv) (ws p) =
          sent srv (ws p) @ (if readyState srv (ws p) = OPEN then [syncNotice ev now] else [])"
    by (simp add: handleSyncEvent_step [OF assms(1,2)] broadcastToSession_sent_all f)
next
  fix sock
  assume "sock \<notin> ws ` set (getConnectionsBySession (sessionId sender) (playerManager srv))"
  then have "filter (\<lambda>q. ws q = sock) (getConnectionsBySession (sessionId sender) (playerManager srv)) = []"
    by (auto simp: filter_empty_conv)
  then show "sent (handleSyncEvent newId now cid message srv) sock = sent srv sock"
    by (simp add: handleSyncEvent_step [OF assms(1,2)] broadcastToSession_sent_all)
qed

theorem handleSyncEvent_reaches_open_connections_witness:
  "getConnection ''c1'' (playerManager serverOpen) = Some aliceConn \<and>
   m_event voteMessage = Some (VOTE_SUBMITTED ''a'' (NumberV (Finite 3))) \<and>
   distinct (map (ws \<circ> snd) (connections (playerManager serverOpen))) \<and>
   getConnectionsBySession ''s1'' (playerManager serverOpen) = [aliceConn, bobConn] \<and>
   sent (handleSyncEvent ''r9'' 3 ''c1'' voteMessage serverOpen) 1
     = [syncNotice (VOTE_SUBMITTED ''a'' (NumberV (Finite 3))) 3] \<and>
   sent (handleSyncEvent ''r9'' 3 ''c1'' voteMessage serverOpen) 2
     = [syncNotice (VOTE_SUBMITTED ''a'' (NumberV (Finite 3))) 3]"
proof -
  have g: "getConnection ''c1'' (playerManager serverOpen) = Some aliceConn"
    by (simp add: getConnection_def serverOpen_def bothJoined_def)
  have e: "m_event voteMessage = Some (VOTE_SUBMITTED ''a'' (NumberV (Finite 3)))"
    by (simp add: voteMessage_def)
  have d: "distinct (map (ws \<circ> snd) (connections (playerManager serverOpen)))"
    by (simp add: serverOpen_def bothJoined_def aliceConn_def bobConn_def)
  have c: "getConnectionsBySession ''s1'' (playerManager serverOpen) = [aliceConn, bobConn]"
    by (simp add: getConnectionsBySession_def serverOpen_def bothJoined_def aliceConn_def
          bobConn_def)
  have s: "sessionId aliceConn = ''s1''" "ws aliceConn = 1" "ws bobConn = 2"
    by (simp_all add: aliceConn_def bobConn_def)
  have o: "readyState serverOpen = (\<lambda>sock. OPEN)" "sent serverOpen = (\<lambda>sock. [])"
    by (simp_all add: serverOpen_def)
  from handleSyncEvent_reaches_open_connections [OF g e d, of "''r9''" 3]
  have "sent (handleSyncEvent ''r9'' 3 ''c1'' voteMessage serverOpen) 1
          = [syncNotice (VOTE_SUBMITTED ''a'' (NumberV (Finite 3))) 3] \<and>
        sent (handleSyncEvent ''r9'' 3 ''c1'' voteMessage serverOpen) 2
          = [syncNotice (VOTE_SUBMITTED ''a'' (NumberV (Finite 3))) 3]"
    by (simp add: s c o)
  with g e d c show ?thesis by blast
qed

text \<open>
  C9 as stated fails when a registered connection's socket is no longer open: Bob's
  connection is in the session, and the vote Alice submits is not sent to it.
\<close>

theorem handleSyncEvent_skips_closing_socket:
  "getConnection ''c1'' (playerManager serverClosing) = Some aliceConn \<and>
   getConnection ''c2'' (playerManager serverClosing) = Some bobConn \<and>
   getConnectionsBySession ''s1'' (playerManager serverClosing) = [aliceConn, bobConn] \<and>
   ws bobConn = 2 \<and> readyState serverClosing 2 = CLOSING \<and>
   sent serverClosing 2 = [] \<and>
   sent (handleSyncEvent ''r9'' 3 ''c1'' voteMessage serverClosing) 1
     = [syncNotice (VOTE_SUBMITTED ''a'' (NumberV (Finite 3))) 3] \<and>
   sent (handleSyncEvent ''r9'' 3 ''c1'' voteMessage serverClosing) 2 = []"
  by (simp add: handleSyncEvent_def broadcastToSession_def getConnection_def
        getConnectionsBySession_def serverClosing_def serverOpen_def bothJoined_def
        aliceConn_def bobConn_def voteMessage_def syncNotice_def)



end
